theory Spec2Isabelle
  imports Main "HOL-Library.Sublist"
begin

section \<open>cpackget: the pack installation engine\<close>

text \<open>
  A shallow embedding of \<^verbatim>\<open>cmd/installer/pack.go\<close>, \<^verbatim>\<open>cmd/utils/utils.go\<close>,
  \<^verbatim>\<open>cmd/ui/eula.go\<close> and \<^verbatim>\<open>cmd/errors/errors.go\<close>. Go strings are HOL strings,
  the file system is an explicit state, every error return is a value, and a
  run-time panic of Go is the error value \<open>GoPanic\<close>.
\<close>

subsection \<open>Errors (cmd/errors/errors.go)\<close>

text \<open>Errors of the operating system, as far as the model distinguishes them.\<close>

datatype os_error = ENOENT | ENOTDIR | EISDIR | EEXIST | ENOTEMPTY | EACCES | EINVAL

text \<open>
  The error values of errors.go that the modelled functions return. utils.go names three
  of them without the \<^verbatim>\<open>Err\<close> prefix (\<^verbatim>\<open>errs.BadRequest\<close>, ...); they are the same
  values. \<open>ErrOS\<close> wraps an error of package os that the code passes through,
  \<open>ErrOther\<close> an error of a library (XML parser, license decoder, terminal UI).
\<close>

datatype error =
    ErrPdscFileNotFound
  | ErrEula
  | ErrExtractEula
  | ErrLicenseNotFound
  | ErrPdscFileTooDeepInPack
  | ErrBadRequest
  | ErrFailedDownloadingFile
  | ErrFailedCreatingFile
  | ErrFailedWrittingToLocalFile
  | ErrFailedDecompressingFile
  | ErrFailedInflatingFile
  | ErrFileNotFound
  | ErrInsecureZipFileName
  | ErrFileTooBig
  | ErrPackVersionNotFoundInPdsc
  | ErrPackVersionNotLatestReleasePdsc
  | ErrPackVersionNotAvailable
  | ErrTerminatedByUser
  | ErrOS os_error
  | ErrOther string
  | GoPanic

subsection \<open>Strings (package strings)\<close>

definition slash :: char where
  "slash = CHR ''/''"

definition backslash :: char where
  "backslash = CHR 0x5C"

text \<open>\<^verbatim>\<open>strings.Count(s, c)\<close> for a one-character separator.\<close>

definition Count :: "string \<Rightarrow> char \<Rightarrow> nat" where
  "Count s c = length (filter (\<lambda>x. x = c) s)"

text \<open>\<^verbatim>\<open>strings.Contains(s, sub)\<close>.\<close>

fun Contains :: "string \<Rightarrow> string \<Rightarrow> bool" where
  "Contains [] sub = (sub = [])"
| "Contains (c # cs) sub = (prefix sub (c # cs) \<or> Contains cs sub)"

text \<open>\<^verbatim>\<open>strings.Replace(s, "\\", "/", -1)\<close>.\<close>

definition ReplaceBackslashes :: "string \<Rightarrow> string" where
  "ReplaceBackslashes s = map (\<lambda>c. if c = backslash then slash else c) s"

text \<open>\<^verbatim>\<open>strings.Split(s, sep)\<close> for a one-character separator: never the empty list.\<close>

fun Split :: "char \<Rightarrow> string \<Rightarrow> string list" where
  "Split sep [] = [[]]"
| "Split sep (c # cs) =
     (if c = sep then [] # Split sep cs
      else (case Split sep cs of w # ws \<Rightarrow> (c # w) # ws | [] \<Rightarrow> [[c]]))"

text \<open>\<^verbatim>\<open>strings.Join(ws, "/")\<close>.\<close>

fun JoinSlash :: "string list \<Rightarrow> string" where
  "JoinSlash [] = []"
| "JoinSlash [w] = w"
| "JoinSlash (w # ws) = w @ slash # JoinSlash ws"

subsection \<open>Semantic versions\<close>

text \<open>
  \<^verbatim>\<open>utils.SemverCompare\<close> and \<^verbatim>\<open>utils.SemverMajor\<close> are not in utils.go as given, and
  \<^verbatim>\<open>semver.Compare\<close> is a library function: the resolver takes the three as parameters.
\<close>

record semver_ops =
  SemverCompare :: "string \<Rightarrow> string \<Rightarrow> int"
  SemverMajor :: "string \<Rightarrow> string"
  semver_Compare :: "string \<Rightarrow> string \<Rightarrow> int"

text \<open>
  Modelled from the spec: the comparator the spec describes ("Comparison is semver", with
  a permissible prefix v), written after \<^verbatim>\<open>semver.Compare\<close> and \<^verbatim>\<open>semver.Major\<close> of
  golang.org/x/mod, which pack.go imports. A version is MAJOR[.MINOR[.PATCH]] in decimal
  digits without leading zeros, a missing part counting as 0; after the patch number
  there may be a prerelease (a hyphen and identifiers separated by dots) and build
  metadata (a plus sign and identifiers separated by dots). Any other string is invalid;
  an invalid version is below every valid one and equal to every invalid one. A version
  with a prerelease is below the same version without one, build metadata is ignored.
\<close>

definition is_digit :: "char \<Rightarrow> bool" where
  "is_digit c = ((48::nat) \<le> of_char c \<and> of_char c \<le> (57::nat))"

definition is_letter :: "char \<Rightarrow> bool" where
  "is_letter c = (((65::nat) \<le> of_char c \<and> of_char c \<le> (90::nat))
                  \<or> ((97::nat) \<le> of_char c \<and> of_char c \<le> (122::nat)))"

definition isIdentChar :: "char \<Rightarrow> bool" where
  "isIdentChar c = (is_letter c \<or> is_digit c \<or> c = CHR ''-'')"

definition digit_val :: "char \<Rightarrow> nat" where
  "digit_val c = of_char c - 48"

definition isBadNum :: "string \<Rightarrow> bool" where
  "isBadNum s = (list_all is_digit s \<and> 1 < length s \<and> hd s = CHR ''0'')"

definition isNum :: "string \<Rightarrow> bool" where
  "isNum s = list_all is_digit s"

definition parse_num :: "string \<Rightarrow> nat option" where
  "parse_num s =
     (if s = [] \<or> \<not> list_all is_digit s \<or> (hd s = CHR ''0'' \<and> length s \<noteq> 1) then None
      else Some (foldl (\<lambda>n c. 10 * n + digit_val c) 0 s))"

text \<open>The identifiers of a prerelease, and whether the text after a plus sign is build
  metadata.\<close>

definition parsePrerelease :: "string \<Rightarrow> string list option" where
  "parsePrerelease s =
     (let ids = Split (CHR ''.'') s
      in if list_all (\<lambda>i. i \<noteq> [] \<and> list_all isIdentChar i \<and> \<not> isBadNum i) ids then Some ids
         else None)"

definition parseBuild :: "string \<Rightarrow> bool" where
  "parseBuild s = list_all (\<lambda>i. i \<noteq> [] \<and> list_all isIdentChar i) (Split (CHR ''.'') s)"

text \<open>The text after the numbers: nothing, a prerelease, build metadata, or both in this
  order. The result is the list of prerelease identifiers, empty when there is none.\<close>

definition parse_suffix :: "string \<Rightarrow> string list option" where
  "parse_suffix s =
     (case s of
        [] \<Rightarrow> Some []
      | c # cs \<Rightarrow>
          (if c = CHR ''+'' then (if parseBuild cs then Some [] else None)
           else if c = CHR ''-''
           then (case dropWhile (\<lambda>x. x \<noteq> CHR ''+'') cs of
                   [] \<Rightarrow> parsePrerelease cs
                 | _ # build \<Rightarrow>
                     (if parseBuild build then parsePrerelease (takeWhile (\<lambda>x. x \<noteq> CHR ''+'') cs)
                      else None))
           else None))"

definition parse_version :: "string \<Rightarrow> (nat \<times> nat \<times> nat \<times> string list) option" where
  "parse_version s =
     (let numbers = takeWhile (\<lambda>x. x \<noteq> CHR ''-'' \<and> x \<noteq> CHR ''+'') s;
          suffix = dropWhile (\<lambda>x. x \<noteq> CHR ''-'' \<and> x \<noteq> CHR ''+'') s
      in case map parse_num (Split (CHR ''.'') numbers) of
           [Some a] \<Rightarrow> (if suffix = [] then Some (a, 0, 0, []) else None)
         | [Some a, Some b] \<Rightarrow> (if suffix = [] then Some (a, b, 0, []) else None)
         | [Some a, Some b, Some c] \<Rightarrow>
             (case parse_suffix suffix of None \<Rightarrow> None | Some pre \<Rightarrow> Some (a, b, c, pre))
         | _ \<Rightarrow> None)"

definition compare_nat :: "nat \<Rightarrow> nat \<Rightarrow> int" where
  "compare_nat a b = (if a < b then - 1 else if b < a then 1 else 0)"

text \<open>The order of Go strings: byte by byte, a proper prefix first.\<close>

fun string_less :: "string \<Rightarrow> string \<Rightarrow> bool" where
  "string_less [] [] = False"
| "string_less [] (d # ds) = True"
| "string_less (c # cs) [] = False"
| "string_less (c # cs) (d # ds) =
     ((of_char c :: nat) < of_char d \<or> (c = d \<and> string_less cs ds))"

text \<open>Two different prerelease identifiers: a numeric one is below an alphanumeric one,
  numeric ones compare as numbers, the others as strings.\<close>

definition compareIdent :: "string \<Rightarrow> string \<Rightarrow> int" where
  "compareIdent dx dy =
     (if isNum dx \<noteq> isNum dy then (if isNum dx then - 1 else 1)
      else if isNum dx \<and> length dx < length dy then - 1
      else if isNum dx \<and> length dy < length dx then 1
      else if string_less dx dy then - 1 else 1)"

fun prereleaseLoop :: "string list \<Rightarrow> string list \<Rightarrow> int" where
  "prereleaseLoop [] ys = - 1"
| "prereleaseLoop (x # xs) [] = 1"
| "prereleaseLoop (x # xs) (y # ys) =
     (if x \<noteq> y then compareIdent x y else prereleaseLoop xs ys)"

definition comparePrerelease :: "string list \<Rightarrow> string list \<Rightarrow> int" where
  "comparePrerelease x y =
     (if x = y then 0 else if x = [] then 1 else if y = [] then - 1 else prereleaseLoop x y)"

definition compare_versions :: "string \<Rightarrow> string \<Rightarrow> int" where
  "compare_versions v w =
     (case (parse_version v, parse_version w) of
        (None, None) \<Rightarrow> 0
      | (None, Some _) \<Rightarrow> - 1
      | (Some _, None) \<Rightarrow> 1
      | (Some (a, b, c, pre), Some (a', b', c', pre')) \<Rightarrow>
          (if compare_nat a a' \<noteq> 0 then compare_nat a a'
           else if compare_nat b b' \<noteq> 0 then compare_nat b b'
           else if compare_nat c c' \<noteq> 0 then compare_nat c c'
           else comparePrerelease pre pre'))"

definition major_of :: "string \<Rightarrow> string" where
  "major_of v = (case parse_version v of None \<Rightarrow> [] | Some _ \<Rightarrow> takeWhile is_digit v)"

definition strip_v :: "string \<Rightarrow> string" where
  "strip_v s = (case s of c # cs \<Rightarrow> (if c = CHR ''v'' then cs else CHR ''!'' # s) | [] \<Rightarrow> ''!'')"

definition spec_semver :: semver_ops where
  "spec_semver =
     \<lparr> SemverCompare = compare_versions,
       SemverMajor = major_of,
       semver_Compare = (\<lambda>v w. compare_versions (strip_v v) (strip_v w)) \<rparr>"

subsection \<open>The PDSC descriptor\<close>

text \<open>
  Modelled from the spec: package xml (\<^verbatim>\<open>xml.PdscXML\<close>, its \<^verbatim>\<open>LatestVersion\<close>,
  \<^verbatim>\<open>AllReleases\<close> and \<^verbatim>\<open>FindReleaseTagByVersion\<close>) is not under src. The spec's PdscDoc has
  the license path, the file name and the releases, newest first, with
  LatestVersion() = releases[0].version; for a descriptor without a release the model
  returns the empty string.
\<close>

record PdscXML =
  License :: string
  releases :: "string list"
  FileName :: string

definition AllReleases :: "PdscXML \<Rightarrow> string list" where
  "AllReleases pdsc = releases pdsc"

definition LatestVersion :: "PdscXML \<Rightarrow> string" where
  "LatestVersion pdsc = (case AllReleases pdsc of [] \<Rightarrow> [] | v # _ \<Rightarrow> v)"

definition FindReleaseTagByVersion :: "PdscXML \<Rightarrow> string \<Rightarrow> string option" where
  "FindReleaseTagByVersion pdsc version = find (\<lambda>v. v = version) (AllReleases pdsc)"

subsection \<open>The pack record (pack.go, PackType)\<close>

text \<open>
  The version modifiers are integer constants of package utils; \<open>UnknownModifier\<close>
  stands for every other integer.
\<close>

datatype version_modifier =
    ExactVersion
  | LatestVersionModifier
  | AnyVersion
  | GreaterVersion
  | GreatestCompatibleVersion
  | RangeVersion
  | UnknownModifier

text \<open>An entry of the opened archive: its name, its bytes when it can be opened, and whether
  reading them breaks off with an error.\<close>

record zip_file =
  zName :: string
  zBody :: "string option"
  zReadError :: bool

record PackType =
  Vendor :: string
  Name :: string
  Version :: string
  IsPublic :: bool
  isDownloaded :: bool
  versionModifier :: version_modifier
  targetVersion :: string
  path :: string
  Subfolder :: string
  Pdsc :: "PdscXML option"
  zipReader :: "zip_file list"

definition PackID :: "PackType \<Rightarrow> string" where
  "PackID p = Vendor p @ ''.'' @ Name p"

definition GetVersion :: "PackType \<Rightarrow> string" where
  "GetVersion p = (if versionModifier p \<noteq> ExactVersion then targetVersion p else Version p)"

definition PackIDWithVersion :: "PackType \<Rightarrow> string" where
  "PackIDWithVersion p = PackID p @ ''.'' @ GetVersion p"

definition PackFileName :: "PackType \<Rightarrow> string" where
  "PackFileName p = PackIDWithVersion p @ ''.pack''"

definition PdscFileName :: "PackType \<Rightarrow> string" where
  "PdscFileName p = PackID p @ ''.pdsc''"

definition PdscFileNameWithVersion :: "PackType \<Rightarrow> string" where
  "PdscFileNameWithVersion p = PackIDWithVersion p @ ''.pdsc''"

subsection \<open>Version resolution (pack.go, resolveVersionModifier)\<close>

text \<open>The loop of the \<^verbatim>\<open>@~\<close> branch: the first release of the same major that is not older.\<close>

fun firstCompatible :: "semver_ops \<Rightarrow> string \<Rightarrow> string list \<Rightarrow> string option" where
  "firstCompatible sv ref [] = None"
| "firstCompatible sv ref (version # rest) =
     (if SemverMajor sv version = SemverMajor sv ref \<and> 0 \<le> SemverCompare sv version ref
      then Some version
      else firstCompatible sv ref rest)"

text \<open>The loop of the range branch: the target moves to every release in range above it.\<close>

fun rangeLoop :: "semver_ops \<Rightarrow> string \<Rightarrow> string \<Rightarrow> string list \<Rightarrow> string \<Rightarrow> string" where
  "rangeLoop sv minVersion maxVersion [] target = target"
| "rangeLoop sv minVersion maxVersion (version # rest) target =
     rangeLoop sv minVersion maxVersion rest
       (if semver_Compare sv (CHR ''v'' # minVersion) (CHR ''v'' # version) \<le> 0
           \<and> semver_Compare sv (CHR ''v'' # version) (CHR ''v'' # maxVersion) \<le> 0
           \<and> 0 < semver_Compare sv (CHR ''v'' # version) (CHR ''v'' # target)
        then version else target)"

text \<open>
  \<^verbatim>\<open>resolveVersionModifier\<close> returns nothing: it sets \<^verbatim>\<open>p.targetVersion\<close> or logs and leaves
  it as it was. The slices \<^verbatim>\<open>p.Version[:1]\<close> and \<^verbatim>\<open>LatestVersion()[:1]\<close> in the log call
  of the \<^verbatim>\<open>@~\<close> branch panic on an empty string, and so does the index 1 of
  \<^verbatim>\<open>strings.Split(p.Version, ":")\<close> in the range branch when there is no colon.
\<close>

definition resolveVersionModifier :: "semver_ops \<Rightarrow> PackType \<Rightarrow> PdscXML \<Rightarrow> error + PackType" where
  "resolveVersionModifier sv p pdscXML =
     (if versionModifier p = ExactVersion then Inr (p\<lparr>targetVersion := Version p\<rparr>)
      else if versionModifier p = LatestVersionModifier \<or> versionModifier p = AnyVersion
      then Inr (p\<lparr>targetVersion := LatestVersion pdscXML\<rparr>)
      else if versionModifier p = GreaterVersion
      then (if targetVersion p = [] \<and> 0 < SemverCompare sv (Version p) (LatestVersion pdscXML)
            then Inr p
            else Inr (p\<lparr>targetVersion := LatestVersion pdscXML\<rparr>))
      else if versionModifier p = GreatestCompatibleVersion
      then (case firstCompatible sv (Version p) (AllReleases pdscXML) of
              Some version \<Rightarrow> Inr (p\<lparr>targetVersion := version\<rparr>)
            | None \<Rightarrow>
                (if 0 < SemverCompare sv (targetVersion p) (Version p)
                 then Inr (p\<lparr>targetVersion := LatestVersion pdscXML\<rparr>)
                 else if Version p = [] \<or> LatestVersion pdscXML = [] then Inl GoPanic
                 else Inr p))
      else if versionModifier p = RangeVersion
      then (case Split (CHR '':'') (Version p) of
              minVersion # maxVersion # _ \<Rightarrow>
                (if LatestVersion pdscXML = maxVersion
                 then Inr (p\<lparr>targetVersion := LatestVersion pdscXML\<rparr>)
                 else Inr (p\<lparr>targetVersion :=
                        rangeLoop sv minVersion
                          (if maxVersion = ''_'' then LatestVersion pdscXML else maxVersion)
                          (AllReleases pdscXML) (targetVersion p)\<rparr>))
            | _ \<Rightarrow> Inl GoPanic)
      else Inr p)"

text \<open>
  Modelled from the spec: the caller of \<^verbatim>\<open>resolveVersionModifier\<close> is not under src
  (only \<^verbatim>\<open>ErrPackVersionNotAvailable\<close> in errors.go is). In the spec the Version Resolver
  fails with PackVersionNotAvailable where the function above logs and resolves nothing,
  that is, where the version to install is still empty afterwards.
\<close>

definition resolveVersion :: "semver_ops \<Rightarrow> PackType \<Rightarrow> PdscXML \<Rightarrow> error + PackType" where
  "resolveVersion sv p pdscXML =
     (case resolveVersionModifier sv p pdscXML of
        Inl e \<Rightarrow> Inl e
      | Inr p' \<Rightarrow> (if GetVersion p' = [] then Inl ErrPackVersionNotAvailable else Inr p'))"

subsection \<open>Paths (packages path and path/filepath, with the slash as separator)\<close>

text \<open>One step of \<^verbatim>\<open>Clean\<close>: the components kept so far and the next component.\<close>

definition clean_step :: "bool \<Rightarrow> string list \<Rightarrow> string \<Rightarrow> string list" where
  "clean_step rooted out c =
     (if c = [] \<or> c = ''.'' then out
      else if c = ''..''
      then (if out \<noteq> [] \<and> last out \<noteq> ''..'' then butlast out
            else if rooted then out else out @ [''..''])
      else out @ [c])"

definition Clean :: "string \<Rightarrow> string" where
  "Clean p =
     (if p = [] then ''.''
      else let rooted = (hd p = slash);
               out = foldl (clean_step rooted) [] (Split slash p)
           in if rooted then slash # JoinSlash out
              else if out = [] then ''.'' else JoinSlash out)"

text \<open>\<^verbatim>\<open>Join\<close>: empty elements are ignored, the result is cleaned, no element gives "".\<close>

definition Join :: "string list \<Rightarrow> string" where
  "Join elems =
     (let es = filter (\<lambda>e. e \<noteq> []) elems
      in if es = [] then [] else Clean (JoinSlash es))"

definition Base :: "string \<Rightarrow> string" where
  "Base p =
     (if p = [] then ''.''
      else let q = dropWhile (\<lambda>c. c = slash) (rev p);
               b = rev (takeWhile (\<lambda>c. c \<noteq> slash) q)
           in if b = [] then [slash] else b)"

definition Dir :: "string \<Rightarrow> string" where
  "Dir p = Clean (rev (dropWhile (\<lambda>c. c \<noteq> slash) (rev p)))"

subsection \<open>The file system (package os)\<close>

text \<open>
  The file system is a finite table from absolute, cleaned paths (lists of components)
  to nodes. The root is the empty list and always a directory; a relative path is taken
  from the root, the working directory of the model. A file has its bytes and whether
  it is read-only. There are no symbolic links, and no failure of the medium: an
  operation fails only for what the table shows (a missing parent, a directory where a
  file is expected, a read-only file).
\<close>

datatype file_mode = ModeRW | ModeRO

datatype node = Directory | File string file_mode

type_synonym fpath = "string list"

type_synonym fs = "(fpath \<times> node) list"

definition os_path :: "string \<Rightarrow> fpath" where
  "os_path p = foldl (clean_step True) [] (Split slash p)"

definition node_at :: "fs \<Rightarrow> fpath \<Rightarrow> node option" where
  "node_at t q = (if q = [] then Some Directory else map_of t q)"

definition fs_del :: "fs \<Rightarrow> fpath \<Rightarrow> fs" where
  "fs_del t q = filter (\<lambda>(k, n). k \<noteq> q) t"

definition fs_put :: "fs \<Rightarrow> fpath \<Rightarrow> node \<Rightarrow> fs" where
  "fs_put t q n = (q, n) # fs_del t q"

definition is_file :: "fs \<Rightarrow> fpath \<Rightarrow> bool" where
  "is_file t q = (case node_at t q of Some (File data m) \<Rightarrow> True | _ \<Rightarrow> False)"

definition is_dir :: "fs \<Rightarrow> fpath \<Rightarrow> bool" where
  "is_dir t q = (node_at t q = Some Directory)"

definition has_children :: "fs \<Rightarrow> fpath \<Rightarrow> bool" where
  "has_children t q = list_ex (\<lambda>(k, n). k \<noteq> [] \<and> butlast k = q) t"

text \<open>The error of looking up a path that is not there: a file on the way, or nothing.\<close>

definition missing :: "fs \<Rightarrow> fpath \<Rightarrow> os_error" where
  "missing t q = (if list_ex (is_file t) (prefixes q) then ENOTDIR else ENOENT)"

definition os_Stat :: "fs \<Rightarrow> string \<Rightarrow> os_error + node" where
  "os_Stat t p =
     (case node_at t (os_path p) of
        None \<Rightarrow> Inl (missing t (os_path p))
      | Some n \<Rightarrow> Inr n)"

text \<open>
  \<^verbatim>\<open>os.Create\<close>: the parent must be a directory; an existing file is truncated and keeps
  its mode, and must be writable; a new file is read-write.
\<close>

definition open_trunc :: "fs \<Rightarrow> string \<Rightarrow> file_mode \<Rightarrow> os_error + fs" where
  "open_trunc t p perm =
     (let q = os_path p
      in if q = [] \<or> (p \<noteq> [] \<and> last p = slash) then Inl EISDIR
         else (case node_at t (butlast q) of
                 None \<Rightarrow> Inl (missing t (butlast q))
               | Some (File data m) \<Rightarrow> Inl ENOTDIR
               | Some Directory \<Rightarrow>
                   (case node_at t q of
                      Some Directory \<Rightarrow> Inl EISDIR
                    | Some (File data ModeRO) \<Rightarrow> Inl EACCES
                    | Some (File data ModeRW) \<Rightarrow> Inr (fs_put t q (File [] ModeRW))
                    | None \<Rightarrow> Inr (fs_put t q (File [] perm)))))"

definition os_Create :: "fs \<Rightarrow> string \<Rightarrow> os_error + fs" where
  "os_Create t p = open_trunc t p ModeRW"

text \<open>Writing through an open handle: the bytes of the file change, its mode stays.\<close>

definition write_file :: "fs \<Rightarrow> string \<Rightarrow> string \<Rightarrow> fs" where
  "write_file t p data =
     (case node_at t (os_path p) of
        Some (File old m) \<Rightarrow> fs_put t (os_path p) (File data m)
      | _ \<Rightarrow> t)"

definition os_WriteFile :: "fs \<Rightarrow> string \<Rightarrow> string \<Rightarrow> file_mode \<Rightarrow> os_error + fs" where
  "os_WriteFile t p data perm =
     (case open_trunc t p perm of
        Inl e \<Rightarrow> Inl e
      | Inr t' \<Rightarrow> Inr (write_file t' p data))"

text \<open>
  \<^verbatim>\<open>os.MkdirAll\<close>: fails, creating nothing, when the path or one of its ancestors is a
  file; otherwise every missing directory on the way is created.
\<close>

definition mkdir_missing :: "fs \<Rightarrow> fpath \<Rightarrow> fs" where
  "mkdir_missing t q = (if node_at t q = None then fs_put t q Directory else t)"

definition os_MkdirAll :: "fs \<Rightarrow> string \<Rightarrow> os_error + fs" where
  "os_MkdirAll t p =
     (if list_ex (is_file t) (prefixes (os_path p)) then Inl ENOTDIR
      else Inr (foldl mkdir_missing t (prefixes (os_path p))))"

text \<open>\<^verbatim>\<open>os.Remove\<close>: a file, or an empty directory.\<close>

definition os_Remove :: "fs \<Rightarrow> string \<Rightarrow> os_error + fs" where
  "os_Remove t p =
     (let q = os_path p
      in case node_at t q of
           None \<Rightarrow> Inl (missing t q)
         | Some (File data m) \<Rightarrow> Inr (fs_del t q)
         | Some Directory \<Rightarrow>
             (if q = [] then Inl EINVAL
              else if has_children t q then Inl ENOTEMPTY
              else Inr (fs_del t q)))"

text \<open>
  \<^verbatim>\<open>os.RemoveAll\<close>: the path and everything below it; a path that does not exist is no
  error. The model refuses to remove the root.
\<close>

definition os_RemoveAll :: "fs \<Rightarrow> string \<Rightarrow> os_error + fs" where
  "os_RemoveAll t p =
     (let q = os_path p
      in if p = [] then Inr t
         else if q = [] then Inl EINVAL
         else if node_at t q = None \<and> missing t q = ENOTDIR then Inl ENOTDIR
         else Inr (filter (\<lambda>(k, n). \<not> prefix q k) t))"

text \<open>
  \<^verbatim>\<open>os.Rename\<close>. Go first looks at the new path: when it is a directory, the call
  fails with the error of the old path if that is missing and with \<open>EEXIST\<close> otherwise
  (only two spellings of one directory go on to the system call, which then does
  nothing). Then the system call: a file replaces a file, a directory cannot replace a
  file and cannot move below itself.
\<close>

definition os_Rename :: "fs \<Rightarrow> string \<Rightarrow> string \<Rightarrow> os_error + fs" where
  "os_Rename t old new =
     (let qo = os_path old; qn = os_path new
      in case node_at t qo of
           None \<Rightarrow> Inl (missing t qo)
         | Some n \<Rightarrow>
             (if node_at t qn = Some Directory
              then (if old = new \<or> qo \<noteq> qn then Inl EEXIST else Inr t)
              else if node_at t (butlast qn) \<noteq> Some Directory
              then Inl (if node_at t (butlast qn) = None then missing t (butlast qn) else ENOTDIR)
              else if qo = qn then Inr t
              else (case n of
                      File data m \<Rightarrow> Inr (fs_put (fs_del t qo) qn n)
                    | Directory \<Rightarrow>
                        (if qo = [] \<or> prefix qo qn then Inl EINVAL
                         else if is_file t qn then Inl ENOTDIR
                         else Inr (map (\<lambda>(k, n). (if prefix qo k then qn @ drop (length qo) k else k, n))
                                     t)))))"

text \<open>\<^verbatim>\<open>os.Chmod\<close> on the owner's write bit.\<close>

definition os_Chmod :: "fs \<Rightarrow> string \<Rightarrow> file_mode \<Rightarrow> fs" where
  "os_Chmod t p m =
     (case node_at t (os_path p) of
        Some (File data old) \<Rightarrow> fs_put t (os_path p) (File data m)
      | _ \<Rightarrow> t)"

subsection \<open>cmd/utils/utils.go\<close>

text \<open>What \<^verbatim>\<open>http.Get\<close> gives: no response, or a status and a body whose transfer may break off.\<close>

datatype http_result = HttpFailed | HttpResponse nat string bool

text \<open>
  \<^verbatim>\<open>DownloadFile\<close>: the destination is created first, then the request is made. No path of
  the function removes the file again. The Go function returns "" beside an error.
\<close>

definition DownloadFile ::
  "string \<Rightarrow> (string \<Rightarrow> http_result) \<Rightarrow> string \<Rightarrow> fs \<Rightarrow> (error + string) \<times> fs" where
  "DownloadFile CacheDir http_Get url t =
     (let filePath = Join [CacheDir, Base url]
      in case os_Create t filePath of
           Inl e \<Rightarrow> (Inl ErrFailedCreatingFile, t)
         | Inr t1 \<Rightarrow>
             (case http_Get url of
                HttpFailed \<Rightarrow> (Inl ErrFailedDownloadingFile, t1)
              | HttpResponse status body complete \<Rightarrow>
                  (if status \<noteq> 200 then (Inl ErrBadRequest, t1)
                   else if \<not> complete
                   then (Inl ErrFailedWrittingToLocalFile, write_file t1 filePath body)
                   else (Inr filePath, write_file t1 filePath body))))"

text \<open>
  \<^verbatim>\<open>FileExists\<close>: when \<^verbatim>\<open>os.Stat\<close> fails with an error other than "not exist", \<^verbatim>\<open>info\<close> is
  nil and \<^verbatim>\<open>info.IsDir()\<close> panics.
\<close>

definition FileExists :: "fs \<Rightarrow> string \<Rightarrow> error + bool" where
  "FileExists t filePath =
     (case os_Stat t filePath of
        Inl e \<Rightarrow> (if e = ENOENT then Inr False else Inl GoPanic)
      | Inr n \<Rightarrow> Inr (n \<noteq> Directory))"

definition EnsureDir :: "fs \<Rightarrow> string \<Rightarrow> error option \<times> fs" where
  "EnsureDir t dirName =
     (case os_MkdirAll t dirName of
        Inl e \<Rightarrow> (Some (ErrOS e), t)
      | Inr t' \<Rightarrow> (None, t'))"

text \<open>
  \<^verbatim>\<open>InflateFile\<close>: a name ending in a slash is a directory; anything else is written to
  \<^verbatim>\<open>path.Join(destinationDir, file.Name)\<close>. There is no check of the name.
\<close>

definition InflateFile :: "zip_file \<Rightarrow> string \<Rightarrow> fs \<Rightarrow> error option \<times> fs" where
  "InflateFile file destinationDir t =
     (if suffix [slash] (zName file) then EnsureDir t (Join [destinationDir, zName file])
      else (case zBody file of
              None \<Rightarrow> (Some ErrFailedInflatingFile, t)
            | Some data \<Rightarrow>
                (let filePath = Join [destinationDir, zName file]
                 in case os_Create t filePath of
                      Inl e \<Rightarrow> (Some ErrFailedCreatingFile, t)
                    | Inr t1 \<Rightarrow>
                        (if zReadError file
                         then (Some ErrFailedWrittingToLocalFile, write_file t1 filePath data)
                         else (None, write_file t1 filePath data)))))"

text \<open>
  \<^verbatim>\<open>CopyFile\<close>: the destination is created (and truncated) before the source is read, so
  the bytes copied are those the source has after that; opening a directory succeeds
  and reading it fails.
\<close>

definition CopyFile :: "fs \<Rightarrow> string \<Rightarrow> string \<Rightarrow> error option \<times> fs" where
  "CopyFile t source destination =
     (case os_Stat t source of
        Inl e \<Rightarrow> (Some (ErrOS e), t)
      | Inr n \<Rightarrow>
          (case os_Create t destination of
             Inl e \<Rightarrow> (Some (ErrOS e), t)
           | Inr t1 \<Rightarrow>
               (case node_at t1 (os_path source) of
                  Some (File data m) \<Rightarrow> (None, write_file t1 destination data)
                | _ \<Rightarrow> (Some (ErrOS EISDIR), t1))))"

definition MoveFile :: "fs \<Rightarrow> string \<Rightarrow> string \<Rightarrow> error option \<times> fs" where
  "MoveFile t source destination =
     (case os_Rename t source destination of
        Inl e \<Rightarrow> (Some (ErrOS e), t)
      | Inr t' \<Rightarrow> (None, t'))"

text \<open>\<^verbatim>\<open>ReadXML\<close>, with the XML decoder as a parameter.\<close>

definition ReadXML :: "(string \<Rightarrow> error + 'a) \<Rightarrow> fs \<Rightarrow> string \<Rightarrow> error + 'a" where
  "ReadXML xml_Unmarshal t p =
     (case os_Stat t p of
        Inl e \<Rightarrow> Inl (ErrOS e)
      | Inr Directory \<Rightarrow> Inl (ErrOS EISDIR)
      | Inr (File contents m) \<Rightarrow> xml_Unmarshal contents)"

definition IsEmpty :: "fs \<Rightarrow> string \<Rightarrow> bool" where
  "IsEmpty t dir = (is_dir t (os_path dir) \<and> \<not> has_children t (os_path dir))"

subsection \<open>The license prompt (cmd/ui/eula.go)\<close>

text \<open>The package variables \<^verbatim>\<open>ui.Extract\<close> and \<^verbatim>\<open>ui.LicenseAgreed\<close> (nil is \<open>None\<close>).\<close>

record ui_state =
  Extract :: bool
  LicenseAgreed :: "bool option"

text \<open>
  What ends the main loop of the license window: one of the bound keys, or an error of
  the terminal library.
\<close>

datatype gui_event = KeyAgree | KeyDisagree | KeyExtract | KeyQuit | GuiError string

text \<open>
  The terminal and the user: whether the terminal is interactive, the line read by
  \<^verbatim>\<open>fmt.Scanln\<close> when it is not, whether the window can be set up, and the event that
  ends its loop.
\<close>

record terminal =
  interactive :: bool
  input :: string
  setupError :: "string option"
  event :: gui_event

text \<open>
  \<^verbatim>\<open>PromptUser\<close>: the layout manager quits the loop at once when \<^verbatim>\<open>LicenseAgreed\<close> is
  already set; otherwise the key handlers set the package variables.
\<close>

definition PromptUser :: "terminal \<Rightarrow> ui_state \<Rightarrow> (bool \<times> error option) \<times> ui_state" where
  "PromptUser tty ui =
     (if LicenseAgreed ui \<noteq> None then ((the (LicenseAgreed ui), None), ui)
      else (case event tty of
              GuiError msg \<Rightarrow> ((False, Some (ErrOther msg)), ui)
            | KeyAgree \<Rightarrow> ((True, None), ui\<lparr>LicenseAgreed := Some True\<rparr>)
            | KeyDisagree \<Rightarrow> ((False, None), ui\<lparr>LicenseAgreed := Some False\<rparr>)
            | KeyExtract \<Rightarrow> ((False, Some ErrExtractEula), ui\<lparr>Extract := True\<rparr>)
            | KeyQuit \<Rightarrow>
                (if Extract ui then ((False, Some ErrExtractEula), ui) else ((False, None), ui))))"

definition DisplayAndWaitForEULA ::
  "terminal \<Rightarrow> ui_state \<Rightarrow> string \<Rightarrow> string \<Rightarrow> (bool \<times> error option) \<times> ui_state" where
  "DisplayAndWaitForEULA tty ui licenseTitle licenseContents =
     (if Extract ui then ((False, Some ErrExtractEula), ui)
      else if \<not> interactive tty
      then (case LicenseAgreed ui of
              Some agreed \<Rightarrow> ((agreed, None), ui)
            | None \<Rightarrow>
                (if input tty = ''a'' \<or> input tty = ''A'' then ((True, None), ui)
                 else if input tty = ''e'' \<or> input tty = ''E''
                 then ((False, Some ErrExtractEula), ui)
                 else ((False, None), ui)))
      else (case setupError tty of
              Some msg \<Rightarrow> ((False, Some (ErrOther msg)), ui)
            | None \<Rightarrow> PromptUser tty ui))"

subsection \<open>The installation and its environment\<close>

text \<open>The directories of the package variable \<^verbatim>\<open>Installation\<close>.\<close>

record installation =
  PackRoot :: string
  DownloadDir :: string
  LocalDir :: string

text \<open>
  What the engine takes from outside: the reader of zip archives, the XML decoder of
  PDSC files, the license decoder \<^verbatim>\<open>cat.FromBytes\<close>, the name drawn by
  \<^verbatim>\<open>utils.RandStringBytes\<close>, the cancellation signal at each call of the extractor, and
  the terminal.
\<close>

record environment =
  unzip :: "string \<Rightarrow> zip_file list option"
  xml_Unmarshal :: "string \<Rightarrow> error + PdscXML"
  cat_FromBytes :: "string \<Rightarrow> error + string"
  RandStringBytes :: string
  ShouldAbort :: "nat \<Rightarrow> bool"
  console :: terminal

subsection \<open>The safe extractor\<close>

text \<open>The size bound of the extractor: 20 GB.\<close>

definition maxFileSize :: int where
  "maxFileSize = 20 * 1024 * 1024 * 1024"

definition stripSubfolder :: "string \<Rightarrow> string \<Rightarrow> string" where
  "stripSubfolder subfolder name =
     (if subfolder \<noteq> [] \<and> prefix (subfolder @ [slash]) name
      then drop (length subfolder + 1) name else name)"

definition escapes :: "string \<Rightarrow> string \<Rightarrow> bool" where
  "escapes destinationDir name =
     (\<not> prefix (os_path destinationDir) (os_path (Join [destinationDir, name])))"

text \<open>
  Modelled from the spec: \<^verbatim>\<open>utils.SecureInflateFile\<close>, which \<^verbatim>\<open>validate\<close> and \<^verbatim>\<open>install\<close>
  call, is not in utils.go as given (only \<^verbatim>\<open>InflateFile\<close> is). Section 4.4 of the spec:
  the cancellation signal is checked first (TerminatedByUser); an entry whose normalized
  name (backslashes as slashes) contains \<^verbatim>\<open>../\<close>, or that would otherwise escape the
  destination, is rejected (InsecureZipFileName); an entry of more than 20 GB is
  rejected (FileTooBig); a non-empty subfolder and the separator are stripped from the
  front of the name, and an entry that does not begin with it is written at its given
  name. The write itself is that of \<^verbatim>\<open>InflateFile\<close>, after the directory of the
  entry's path has been ensured: \<^verbatim>\<open>validate\<close> extracts into a directory it has only
  drawn the name of, and reads the entry back from below it.
\<close>

definition SecureInflateFile ::
  "bool \<Rightarrow> zip_file \<Rightarrow> string \<Rightarrow> string \<Rightarrow> fs \<Rightarrow> error option \<times> fs" where
  "SecureInflateFile abort file destinationDir stripPrefix t =
     (let name = stripSubfolder stripPrefix (zName file)
      in if abort then (Some ErrTerminatedByUser, t)
         else if Contains (ReplaceBackslashes (zName file)) ''../''
                 \<or> escapes destinationDir name
         then (Some ErrInsecureZipFileName, t)
         else if (case zBody file of None \<Rightarrow> False | Some data \<Rightarrow> maxFileSize < int (length data))
         then (Some ErrFileTooBig, t)
         else (case EnsureDir t (Dir (Join [destinationDir, name])) of
                 (Some e, t1) \<Rightarrow> (Some e, t1)
               | (None, t1) \<Rightarrow> InflateFile (file\<lparr>zName := name\<rparr>) destinationDir t1))"

subsection \<open>cmd/installer/pack.go\<close>

text \<open>\<^verbatim>\<open>xml.NewPdscXML\<close>: a descriptor that has its file name and nothing read yet.\<close>

definition NewPdscXML :: "string \<Rightarrow> PdscXML" where
  "NewPdscXML fileName = \<lparr> License = [], releases = [], FileName = fileName \<rparr>"

text \<open>
  \<^verbatim>\<open>fetch\<close>: a path that begins with http is downloaded, and the pack is marked as
  downloaded whatever the outcome; any other path must be a file.
\<close>

definition fetch ::
  "string \<Rightarrow> (string \<Rightarrow> http_result) \<Rightarrow> PackType \<Rightarrow> fs \<Rightarrow> error option \<times> PackType \<times> fs" where
  "fetch CacheDir http_Get p t =
     (if prefix ''http'' (path p)
      then (case DownloadFile CacheDir http_Get (path p) t of
              (Inl e, t') \<Rightarrow> (Some e, p\<lparr>path := [], isDownloaded := True\<rparr>, t')
            | (Inr filePath, t') \<Rightarrow> (None, p\<lparr>path := filePath, isDownloaded := True\<rparr>, t'))
      else (case FileExists t (path p) of
              Inl e \<Rightarrow> (Some e, p, t)
            | Inr False \<Rightarrow> (Some ErrFileNotFound, p, t)
            | Inr True \<Rightarrow> (None, p, t)))"

text \<open>
  The body of the loop of \<^verbatim>\<open>validate\<close> for the entry whose base name is the PDSC's. The
  deferred \<^verbatim>\<open>os.RemoveAll\<close> of the temporary directory runs on every return, and its
  error is dropped.
\<close>

definition removeTmp :: "fs \<Rightarrow> string \<Rightarrow> fs" where
  "removeTmp t tmp = (case os_RemoveAll t tmp of Inl e \<Rightarrow> t | Inr t' \<Rightarrow> t')"

definition validateEntry ::
  "environment \<Rightarrow> PackType \<Rightarrow> zip_file \<Rightarrow> fs \<Rightarrow> error option \<times> PackType \<times> fs" where
  "validateEntry env p file t =
     (let subfoldersCount = Count (zName file) slash + Count (zName file) backslash
      in if 1 < subfoldersCount then (Some ErrPdscFileTooDeepInPack, p, t)
         else
           (let p1 = (if subfoldersCount = 1 then p\<lparr>Subfolder := Dir (zName file)\<rparr> else p);
                tmpPdscFileName = RandStringBytes env
            in case SecureInflateFile (ShouldAbort env 0) file tmpPdscFileName [] t of
                 (Some e, t1) \<Rightarrow> (Some e, p1, removeTmp t1 tmpPdscFileName)
               | (None, t1) \<Rightarrow>
                   (let pdscPath = Join [tmpPdscFileName, zName file]
                    in case ReadXML (xml_Unmarshal env) t1 pdscPath of
                         Inl e \<Rightarrow>
                           (Some e, p1\<lparr>Pdsc := Some (NewPdscXML pdscPath)\<rparr>,
                            removeTmp t1 tmpPdscFileName)
                       | Inr parsed \<Rightarrow>
                           (let pdsc = parsed\<lparr>FileName := pdscPath\<rparr>;
                                p2 = p1\<lparr>Pdsc := Some pdsc\<rparr>;
                                version = GetVersion p2;
                                latestVersion = LatestVersion pdsc
                            in if latestVersion \<noteq> version
                               then (if FindReleaseTagByVersion pdsc version = None
                                     then (Some ErrPackVersionNotFoundInPdsc, p2,
                                           removeTmp t1 tmpPdscFileName)
                                     else (Some ErrPackVersionNotLatestReleasePdsc, p2,
                                           removeTmp t1 tmpPdscFileName))
                               else (None, p2\<lparr>Pdsc := Some (pdsc\<lparr>FileName := zName file\<rparr>)\<rparr>,
                                     removeTmp t1 tmpPdscFileName)))))"

fun validateLoop ::
  "environment \<Rightarrow> PackType \<Rightarrow> zip_file list \<Rightarrow> fs \<Rightarrow> error option \<times> PackType \<times> fs" where
  "validateLoop env p [] t = (Some ErrPdscFileNotFound, p, t)"
| "validateLoop env p (file # rest) t =
     (if Base (zName file) = PdscFileName p then validateEntry env p file t
      else validateLoop env p rest t)"

definition validate :: "environment \<Rightarrow> PackType \<Rightarrow> fs \<Rightarrow> error option \<times> PackType \<times> fs" where
  "validate env p t = validateLoop env p (zipReader p) t"

text \<open>
  \<^verbatim>\<open>uninstall\<close>: the error of every \<^verbatim>\<open>os.Remove\<close> is returned, the one of the local PDSC
  included.
\<close>

definition uninstall :: "installation \<Rightarrow> PackType \<Rightarrow> fs \<Rightarrow> error option \<times> fs" where
  "uninstall inst p t =
     (case os_RemoveAll t (Join [PackRoot inst, Vendor p, Name p, GetVersion p]) of
        Inl e \<Rightarrow> (Some (ErrOS e), t)
      | Inr t1 \<Rightarrow>
          (let packPath = Join [PackRoot inst, Vendor p, Name p];
               r2 = (if IsEmpty t1 packPath
                     then (case os_Remove t1 packPath of
                             Inl e \<Rightarrow> (Some (ErrOS e), t1)
                           | Inr t2 \<Rightarrow>
                               (if \<not> IsPublic p
                                then (case os_Remove t2 (Join [LocalDir inst, PdscFileName p]) of
                                        Inl e \<Rightarrow> (Some (ErrOS e), t2)
                                      | Inr t3 \<Rightarrow> (None, t3))
                                else (None, t2)))
                     else (None, t1))
           in case r2 of
                (Some e, t') \<Rightarrow> (Some e, t')
              | (None, t') \<Rightarrow>
                  (let vendorPath = Join [PackRoot inst, Vendor p]
                   in if IsEmpty t' vendorPath
                      then (case os_Remove t' vendorPath of
                              Inl e \<Rightarrow> (Some (ErrOS e), t')
                            | Inr t'' \<Rightarrow> (None, t''))
                      else (None, t'))))"

text \<open>
  \<^verbatim>\<open>readEula\<close>: the bytes of the first entry whose name, with slashes for backslashes,
  is the license path of the PDSC. The error of \<^verbatim>\<open>file.Open\<close> is dropped, so an entry
  that cannot be opened leaves a nil reader, on which the deferred \<^verbatim>\<open>Close\<close> panics.
  \<^verbatim>\<open>utils.SecureCopy\<close> is not in utils.go as given; it is the copy under the size bound.
\<close>

fun readEulaLoop :: "string \<Rightarrow> zip_file list \<Rightarrow> error + string" where
  "readEulaLoop licenseFileName [] = Inl ErrLicenseNotFound"
| "readEulaLoop licenseFileName (file # rest) =
     (if ReplaceBackslashes (zName file) = licenseFileName
      then (case zBody file of
              None \<Rightarrow> Inl GoPanic
            | Some data \<Rightarrow>
                (if maxFileSize < int (length data) then Inl ErrFileTooBig
                 else if zReadError file then Inl (ErrOther ''read'')
                 else Inr data))
      else readEulaLoop licenseFileName rest)"

definition theLicense :: "PackType \<Rightarrow> string" where
  "theLicense p = (case Pdsc p of None \<Rightarrow> [] | Some pdsc \<Rightarrow> License pdsc)"

definition readEula :: "PackType \<Rightarrow> error + string" where
  "readEula p = readEulaLoop (ReplaceBackslashes (theLicense p)) (zipReader p)"

definition checkEula ::
  "environment \<Rightarrow> ui_state \<Rightarrow> PackType \<Rightarrow> (bool \<times> error option) \<times> ui_state" where
  "checkEula env ui p =
     (case readEula p of
        Inl e \<Rightarrow> ((False, Some e), ui)
      | Inr bytes \<Rightarrow>
          (case cat_FromBytes env bytes of
             Inl e \<Rightarrow> ((False, Some e), ui)
           | Inr eulaContents \<Rightarrow> DisplayAndWaitForEULA (console env) ui (theLicense p) eulaContents))"

text \<open>
  \<^verbatim>\<open>extractEula\<close> writes the bytes that \<^verbatim>\<open>readEula\<close> returns, not the decoded text, to
  \<^verbatim>\<open>packPath + "." + path.Base(license)\<close>, read-only. A previous copy is made writable
  and removed first, the errors of both dropped. \<^verbatim>\<open>utils.UnsetReadOnly\<close> and
  \<^verbatim>\<open>utils.FileModeRO\<close> are not in utils.go as given: the first clears the read-only bit, the
  second is the read-only mode.
\<close>

definition UnsetReadOnly :: "fs \<Rightarrow> string \<Rightarrow> fs" where
  "UnsetReadOnly t p = os_Chmod t p ModeRW"

definition FileModeRO :: file_mode where
  "FileModeRO = ModeRO"

definition extractEula :: "PackType \<Rightarrow> string \<Rightarrow> fs \<Rightarrow> error option \<times> fs" where
  "extractEula p packPath t =
     (case readEula p of
        Inl e \<Rightarrow> (Some e, t)
      | Inr eulaContents \<Rightarrow>
          (let eulaFileName = packPath @ ''.'' @ Base (theLicense p)
           in case FileExists t eulaFileName of
                Inl e \<Rightarrow> (Some e, t)
              | Inr present \<Rightarrow>
                  (let t1 = (if present
                             then (case os_Remove (UnsetReadOnly t eulaFileName) eulaFileName of
                                     Inl e \<Rightarrow> UnsetReadOnly t eulaFileName
                                   | Inr t' \<Rightarrow> t')
                             else t)
                   in case FileExists t1 eulaFileName of
                        Inl e \<Rightarrow> (Some e, t1)
                      | Inr True \<Rightarrow> (Some ErrFailedCreatingFile, t1)
                      | Inr False \<Rightarrow>
                          (case os_WriteFile t1 eulaFileName eulaContents FileModeRO of
                             Inl e \<Rightarrow> (Some (ErrOS e), t1)
                           | Inr t2 \<Rightarrow> (None, t2)))))"

text \<open>
  The loop of \<^verbatim>\<open>install\<close> over the entries of the archive; \<open>i\<close> counts the calls of the
  extractor. Only on TerminatedByUser the pack is uninstalled again (the error of that
  is logged and dropped); any other error leaves what has been extracted.
\<close>

fun inflateAll ::
  "environment \<Rightarrow> installation \<Rightarrow> PackType \<Rightarrow> string \<Rightarrow> nat \<Rightarrow> zip_file list \<Rightarrow> fs
     \<Rightarrow> error option \<times> fs" where
  "inflateAll env inst p packHomeDir i [] t = (None, t)"
| "inflateAll env inst p packHomeDir i (file # rest) t =
     (case SecureInflateFile (ShouldAbort env i) file packHomeDir (Subfolder p) t of
        (Some e, t1) \<Rightarrow>
          (if e = ErrTerminatedByUser then (Some e, snd (uninstall inst p t1))
           else (Some e, t1))
      | (None, t1) \<Rightarrow> inflateAll env inst p packHomeDir (Suc i) rest t1)"

text \<open>
  The end of \<^verbatim>\<open>install\<close>: the two copies of the PDSC, whose errors are dropped, and the
  archive, which is copied when it was not downloaded and moved when it was and the base
  names of its path and of the backup path differ.
\<close>

definition saveDescriptors :: "installation \<Rightarrow> PackType \<Rightarrow> string \<Rightarrow> fs \<Rightarrow> fs" where
  "saveDescriptors inst p packHomeDir t =
     (let pdscFilePath = Join [packHomeDir, PdscFileName p];
          t1 = (if \<not> IsPublic p
                then snd (CopyFile t pdscFilePath (Join [LocalDir inst, PdscFileName p]))
                else t)
      in snd (CopyFile t1 pdscFilePath (Join [DownloadDir inst, PdscFileNameWithVersion p])))"

definition saveArchive :: "PackType \<Rightarrow> string \<Rightarrow> fs \<Rightarrow> error option \<times> PackType \<times> fs" where
  "saveArchive p packBackupPath t =
     (if \<not> isDownloaded p
      then (case CopyFile t (path p) packBackupPath of (e, t') \<Rightarrow> (e, p, t'))
      else if Base (path p) \<noteq> Base packBackupPath
      then (case MoveFile t (path p) packBackupPath of
              (Some e, t') \<Rightarrow> (Some e, p, t')
            | (None, t') \<Rightarrow> (None, p\<lparr>path := packBackupPath\<rparr>, t'))
      else (None, p, t))"

text \<open>
  The license gate of \<^verbatim>\<open>install\<close>: \<open>Inr\<close> lets the installation go on, \<open>Inl\<close> is
  what \<^verbatim>\<open>install\<close> returns at once. On ErrExtractEula that is the result of
  \<^verbatim>\<open>extractEula\<close>, which is nil when the license has been written.
\<close>

definition licenseGate ::
  "environment \<Rightarrow> bool \<Rightarrow> ui_state \<Rightarrow> PackType \<Rightarrow> string \<Rightarrow> fs
     \<Rightarrow> ((error option \<times> fs) + unit) \<times> ui_state" where
  "licenseGate env checkEulaFlag ui p packBackupPath t =
     (if theLicense p \<noteq> []
      then (if checkEulaFlag
            then (case checkEula env ui p of
                    ((ok, Some e), ui') \<Rightarrow>
                      (if e = ErrExtractEula then (Inl (extractEula p packBackupPath t), ui')
                       else (Inl (Some e, t), ui'))
                  | ((ok, None), ui') \<Rightarrow>
                      (if \<not> ok then (Inl (Some ErrEula, t), ui') else (Inr (), ui')))
            else (Inr (), ui))
      else if Extract ui then (Inl (Some ErrLicenseNotFound, t), ui)
      else (Inr (), ui))"

definition zip_OpenReader :: "environment \<Rightarrow> fs \<Rightarrow> string \<Rightarrow> zip_file list option" where
  "zip_OpenReader env t p =
     (case node_at t (os_path p) of
        Some (File data m) \<Rightarrow> unzip env data
      | _ \<Rightarrow> None)"

definition install ::
  "environment \<Rightarrow> installation \<Rightarrow> bool \<Rightarrow> ui_state \<Rightarrow> PackType \<Rightarrow> fs
     \<Rightarrow> error option \<times> PackType \<times> fs \<times> ui_state" where
  "install env inst checkEulaFlag ui p t =
     (case zip_OpenReader env t (path p) of
        None \<Rightarrow> (Some ErrFailedDecompressingFile, p, t, ui)
      | Some files \<Rightarrow>
          (case validate env (p\<lparr>zipReader := files\<rparr>) t of
             (Some e, p1, t1) \<Rightarrow> (Some e, p1, t1, ui)
           | (None, p1, t1) \<Rightarrow>
               (let packHomeDir = Join [PackRoot inst, Vendor p1, Name p1, GetVersion p1];
                    packBackupPath = Join [DownloadDir inst, PackFileName p1]
                in case licenseGate env checkEulaFlag ui p1 packBackupPath t1 of
                     (Inl (e, t2), ui') \<Rightarrow> (e, p1, t2, ui')
                   | (Inr u, ui') \<Rightarrow>
                       (case EnsureDir t1 packHomeDir of
                          (Some e, t2) \<Rightarrow> (Some e, p1, t2, ui')
                        | (None, t2) \<Rightarrow>
                            (case inflateAll env inst p1 packHomeDir 1 (zipReader p1) t2 of
                               (Some e, t3) \<Rightarrow> (Some e, p1, t3, ui')
                             | (None, t3) \<Rightarrow>
                                 (case saveArchive p1 packBackupPath
                                         (saveDescriptors inst p1 packHomeDir t3) of
                                    (e, p2, t4) \<Rightarrow> (e, p2, t4, ui')))))))"

subsection \<open>Notions used in the properties\<close>


text \<open>Every file of the first file system is a file of the second.\<close>

definition keeps_files :: "fs \<Rightarrow> fs \<Rightarrow> bool" where
  "keeps_files t t' = list_all (\<lambda>(k, n). is_file t k \<longrightarrow> is_file t' k) t"

text \<open>The two paths lie on one line from the root: one is a prefix of the other.\<close>

definition comparable :: "fpath \<Rightarrow> fpath \<Rightarrow> bool" where
  "comparable q r = (prefix q r \<or> prefix r q)"

text \<open>The pack's home directory and the path of its archive in \<^verbatim>\<open>.Download\<close>, as \<^verbatim>\<open>install\<close> builds them.\<close>

definition packHomeDir :: "installation \<Rightarrow> PackType \<Rightarrow> string" where
  "packHomeDir inst p = Join [PackRoot inst, Vendor p, Name p, GetVersion p]"

definition packBackupPath :: "installation \<Rightarrow> PackType \<Rightarrow> string" where
  "packBackupPath inst p = Join [DownloadDir inst, PackFileName p]"

text \<open>A path component that names an entry: not empty, not a dot entry, without a slash.\<close>

definition is_name :: "string \<Rightarrow> bool" where
  "is_name c = (c \<noteq> [] \<and> c \<noteq> ''.'' \<and> c \<noteq> ''..'' \<and> slash \<notin> set c)"



subsection \<open>Example inputs\<close>

text \<open>The release history of the spec's scenario 5, and a fresh reference to Vendor.Pack.\<close>

definition example_pdsc :: PdscXML where
  "example_pdsc =
     \<lparr> License = [], releases = [''1.5.3'', ''1.2.1'', ''1.2.0'', ''0.9.0''], FileName = [] \<rparr>"

definition empty_pdsc :: PdscXML where
  "empty_pdsc = \<lparr> License = [], releases = [], FileName = [] \<rparr>"

definition example_ref :: "version_modifier \<Rightarrow> string \<Rightarrow> PackType" where
  "example_ref m v =
     \<lparr> Vendor = ''Vendor'', Name = ''Pack'', Version = v, IsPublic = False,
       isDownloaded = False, versionModifier = m, targetVersion = [], path = ''Vendor.Pack'',
       Subfolder = [], Pdsc = None, zipReader = [] \<rparr>"

text \<open>
  A pack root with its three directories, a cache directory, and a working directory
  that holds the archive of Vendor.Pack 1.0.0.
\<close>

definition example_fs :: fs where
  "example_fs =
     [([''packs''], Directory), ([''packs'', ''.Download''], Directory),
      ([''packs'', ''.Local''], Directory), ([''packs'', ''.Web''], Directory),
      ([''cache''], Directory), ([''work''], Directory),
      ([''work'', ''Vendor.Pack.1.0.0.pack''], File ''ZIP1'' ModeRW)]"

definition example_installation :: installation where
  "example_installation =
     \<lparr> PackRoot = ''/packs'', DownloadDir = ''/packs/.Download'', LocalDir = ''/packs/.Local'' \<rparr>"

text \<open>A server that answers every request with 404.\<close>

definition not_found_server :: "string \<Rightarrow> http_result" where
  "not_found_server url = HttpResponse 404 ''not found'' True"

text \<open>
  The pack root with Vendor.Pack 1.0.0 installed and cached, and no descriptor of it
  in \<^verbatim>\<open>.Local\<close>.
\<close>

definition installed_fs :: fs where
  "installed_fs =
     [([''packs''], Directory), ([''packs'', ''.Download''], Directory),
      ([''packs'', ''.Local''], Directory), ([''packs'', ''.Web''], Directory),
      ([''packs'', ''.Download'', ''Vendor.Pack.1.0.0.pack''], File ''ZIP1'' ModeRW),
      ([''packs'', ''.Download'', ''Vendor.Pack.1.0.0.pdsc''], File ''PDSC1'' ModeRW),
      ([''packs'', ''Vendor''], Directory),
      ([''packs'', ''Vendor'', ''Pack''], Directory),
      ([''packs'', ''Vendor'', ''Pack'', ''1.0.0''], Directory),
      ([''packs'', ''Vendor'', ''Pack'', ''1.0.0'', ''Vendor.Pack.pdsc''], File ''PDSC1'' ModeRW)]"

text \<open>
  The archive of Vendor.Pack 1.0.0 (bytes ZIP1): its PDSC, whose latest release is
  1.0.0 and which names a license, a directory, and the license. A second archive
  (bytes ZIP2) holds a PDSC whose latest release is 2.0.0.
\<close>

definition example_entries :: "zip_file list" where
  "example_entries =
     [\<lparr> zName = ''Vendor.Pack.pdsc'', zBody = Some ''PDSC1'', zReadError = False \<rparr>,
      \<lparr> zName = ''docs/'', zBody = Some [], zReadError = False \<rparr>,
      \<lparr> zName = ''docs/license.txt'', zBody = Some ''{rtf}TERMS'', zReadError = False \<rparr>]"

definition newer_entries :: "zip_file list" where
  "newer_entries =
     [\<lparr> zName = ''Vendor.Pack.pdsc'', zBody = Some ''PDSC2'', zReadError = False \<rparr>]"

definition example_pdsc1 :: PdscXML where
  "example_pdsc1 =
     \<lparr> License = ''docs/license.txt'', releases = [''1.0.0'', ''0.9.0''], FileName = [] \<rparr>"

definition example_pdsc2 :: PdscXML where
  "example_pdsc2 = \<lparr> License = [], releases = [''2.0.0'', ''1.0.0''], FileName = [] \<rparr>"

text \<open>
  An environment with these archives, a license decoder that drops the five bytes of
  markup, no cancellation, and a terminal that is not interactive, on which the user
  types the given answer.
\<close>

definition example_env :: "string \<Rightarrow> environment" where
  "example_env answer =
     \<lparr> unzip = (\<lambda>data. if data = ''ZIP1'' then Some example_entries
                       else if data = ''ZIP2'' then Some newer_entries else None),
       xml_Unmarshal = (\<lambda>data. if data = ''PDSC1'' then Inr example_pdsc1
                               else if data = ''PDSC2'' then Inr example_pdsc2
                               else Inl (ErrOther ''xml'')),
       cat_FromBytes = (\<lambda>bytes. Inr (drop 5 bytes)),
       RandStringBytes = ''XVlBzgbaiC'',
       ShouldAbort = (\<lambda>i. False),
       console = \<lparr> interactive = False, input = answer, setupError = None, event = KeyQuit \<rparr> \<rparr>"

definition example_pack :: PackType where
  "example_pack =
     (example_ref ExactVersion ''1.0.0'')\<lparr>path := ''/work/Vendor.Pack.1.0.0.pack''\<rparr>"

definition fresh_ui :: ui_state where
  "fresh_ui = \<lparr> Extract = False, LicenseAgreed = None \<rparr>"

text \<open>
  A server that delivers the archive of Vendor.Pack 1.0.0 at every URL, the reference to
  the pack at a URL, what \<^verbatim>\<open>fetch\<close> makes of it with \<^verbatim>\<open>/cache\<close> as cache directory,
  and the install of the fetched pack by a user who accepts the license.
\<close>

definition archive_server :: "string \<Rightarrow> http_result" where
  "archive_server url = HttpResponse 200 ''ZIP1'' True"

definition remote_pack :: "string \<Rightarrow> PackType" where
  "remote_pack url = (example_ref ExactVersion ''1.0.0'')\<lparr>path := url\<rparr>"

definition fetched :: "string \<Rightarrow> error option \<times> PackType \<times> fs" where
  "fetched url = fetch ''/cache'' archive_server (remote_pack url) example_fs"

definition fetched_installed :: "string \<Rightarrow> error option \<times> PackType \<times> fs \<times> ui_state" where
  "fetched_installed url =
     install (example_env ''a'') example_installation True fresh_ui
       (fst (snd (fetched url))) (snd (snd (fetched url)))"

text \<open>The install of the local archive, by a user who types the given answer.\<close>

definition local_installed :: "string \<Rightarrow> error option \<times> PackType \<times> fs \<times> ui_state" where
  "local_installed answer =
     install (example_env answer) example_installation True fresh_ui example_pack example_fs"

text \<open>
  A pack root whose \<^verbatim>\<open>.Download\<close> holds the archive of Vendor.Pack 1.0.0, the reference to
  this file as a local archive, and its install by a user who accepts the license.
\<close>

definition cached_fs :: fs where
  "cached_fs =
     [([''packs''], Directory), ([''packs'', ''.Download''], Directory),
      ([''packs'', ''.Local''], Directory), ([''packs'', ''.Web''], Directory),
      ([''packs'', ''.Download'', ''Vendor.Pack.1.0.0.pack''], File ''ZIP1'' ModeRW)]"

definition cached_pack :: PackType where
  "cached_pack =
     (example_ref ExactVersion ''1.0.0'')\<lparr>path := ''/packs/.Download/Vendor.Pack.1.0.0.pack''\<rparr>"

definition cached_installed :: "error option \<times> PackType \<times> fs \<times> ui_state" where
  "cached_installed =
     install (example_env ''a'') example_installation True fresh_ui cached_pack cached_fs"




text \<open>
  An entry that points out of every destination, the pack's home directory, the file
  system in which it has been created, and the extraction of the archive into it.
\<close>

definition evil_entry :: zip_file where
  "evil_entry = \<lparr> zName = ''../../etc/passwd'', zBody = Some ''root'', zReadError = False \<rparr>"

definition example_home :: string where
  "example_home = ''/packs/Vendor/Pack/1.0.0''"

definition prepared_fs :: fs where
  "prepared_fs = snd (EnsureDir example_fs example_home)"

definition extracted :: "zip_file list \<Rightarrow> error option \<times> fs" where
  "extracted files =
     inflateAll (example_env ''a'') example_installation example_pack example_home 1 files
       prepared_fs"

text \<open>The validation of the local archive.\<close>

definition validated :: "string \<Rightarrow> error option \<times> PackType \<times> fs" where
  "validated answer =
     validate (example_env answer) (example_pack\<lparr>zipReader := example_entries\<rparr>) example_fs"

section \<open>Properties\<close>

subsection \<open>Version resolution\<close>

lemma firstCompatible_find:
  "firstCompatible sv ref vs =
     find (\<lambda>v. SemverMajor sv v = SemverMajor sv ref \<and> 0 \<le> SemverCompare sv v ref) vs"
  by (induction vs) simp_all

text \<open>
  C3. For a reference with the modifier \<^verbatim>\<open>>=\<close> whose target is not resolved yet and a PDSC
  that has a latest release: if the reference's version is semver-greater than
  LatestVersion(), the function resolves nothing and resolution fails with
  PackVersionNotAvailable; otherwise the resolved version is LatestVersion().
\<close>

theorem greater_resolves_latest_or_fails:
  assumes "versionModifier p = GreaterVersion"
    and "targetVersion p = []"
    and "LatestVersion pdsc \<noteq> []"
  shows "resolveVersionModifier sv p pdsc =
           Inr (if 0 < SemverCompare sv (Version p) (LatestVersion pdsc) then p
                else p\<lparr>targetVersion := LatestVersion pdsc\<rparr>)
         \<and> resolveVersion sv p pdsc =
           (if 0 < SemverCompare sv (Version p) (LatestVersion pdsc)
            then Inl ErrPackVersionNotAvailable
            else Inr (p\<lparr>targetVersion := LatestVersion pdsc\<rparr>))"
  using assms by (simp add: resolveVersion_def resolveVersionModifier_def GetVersion_def)

theorem greater_resolves_latest_or_fails_witness:
  "resolveVersion spec_semver (example_ref GreaterVersion ''2.0.0'') example_pdsc
     = Inl ErrPackVersionNotAvailable
   \<and> resolveVersion spec_semver (example_ref GreaterVersion ''1.0.0'') example_pdsc
     = Inr ((example_ref GreaterVersion ''1.0.0'')\<lparr>targetVersion := ''1.5.3''\<rparr>)"
proof -
  have latest: "LatestVersion example_pdsc = ''1.5.3''"
    by (simp add: LatestVersion_def AllReleases_def example_pdsc_def)
  have cmp: "SemverCompare spec_semver ''2.0.0'' ''1.5.3'' = 1"
    "SemverCompare spec_semver ''1.0.0'' ''1.5.3'' = - 1"
    by code_simp+
  show ?thesis
    using greater_resolves_latest_or_fails
        [of "example_ref GreaterVersion ''2.0.0''" example_pdsc spec_semver]
      greater_resolves_latest_or_fails
        [of "example_ref GreaterVersion ''1.0.0''" example_pdsc spec_semver]
      latest cmp
    by (simp add: example_ref_def)
qed

text \<open>
  The \<^verbatim>\<open>@~\<close> branch where it works. For a reference whose target is not resolved yet and a
  PDSC whose releases have non-empty versions: the resolved version is the first release,
  in the order of the PDSC, that has the major number of the reference's version and is
  semver-greater or equal to it (every release before it fails one of the two tests);
  when there is none, the PDSC has a release and the reference a version, the function
  resolves nothing and resolution fails with PackVersionNotAvailable.
\<close>

lemma greatest_compatible_resolves_first:
  assumes "versionModifier p = GreatestCompatibleVersion"
    and "targetVersion p = []"
    and "SemverCompare sv [] (Version p) \<le> 0"
    and "[] \<notin> set (AllReleases pdsc)"
  shows "(\<forall>i < length (AllReleases pdsc).
            SemverMajor sv (AllReleases pdsc ! i) = SemverMajor sv (Version p)
            \<and> 0 \<le> SemverCompare sv (AllReleases pdsc ! i) (Version p)
            \<and> (\<forall>j < i. \<not> (SemverMajor sv (AllReleases pdsc ! j) = SemverMajor sv (Version p)
                            \<and> 0 \<le> SemverCompare sv (AllReleases pdsc ! j) (Version p)))
            \<longrightarrow> resolveVersionModifier sv p pdsc = Inr (p\<lparr>targetVersion := AllReleases pdsc ! i\<rparr>)
                \<and> resolveVersion sv p pdsc = Inr (p\<lparr>targetVersion := AllReleases pdsc ! i\<rparr>))
         \<and> ((\<forall>v \<in> set (AllReleases pdsc).
                \<not> (SemverMajor sv v = SemverMajor sv (Version p)
                    \<and> 0 \<le> SemverCompare sv v (Version p)))
              \<and> AllReleases pdsc \<noteq> [] \<and> Version p \<noteq> []
            \<longrightarrow> resolveVersionModifier sv p pdsc = Inr p
                \<and> resolveVersion sv p pdsc = Inl ErrPackVersionNotAvailable)"
proof (intro conjI allI impI)
  fix i
  assume i: "i < length (AllReleases pdsc)"
    and first: "SemverMajor sv (AllReleases pdsc ! i) = SemverMajor sv (Version p)
      \<and> 0 \<le> SemverCompare sv (AllReleases pdsc ! i) (Version p)
      \<and> (\<forall>j < i. \<not> (SemverMajor sv (AllReleases pdsc ! j) = SemverMajor sv (Version p)
                      \<and> 0 \<le> SemverCompare sv (AllReleases pdsc ! j) (Version p)))"
  then have found: "firstCompatible sv (Version p) (AllReleases pdsc) = Some (AllReleases pdsc ! i)"
    unfolding firstCompatible_find find_Some_iff by blast
  from i assms(4) have "AllReleases pdsc ! i \<noteq> []"
    by (metis nth_mem)
  with found assms(1)
  show "resolveVersionModifier sv p pdsc = Inr (p\<lparr>targetVersion := AllReleases pdsc ! i\<rparr>)"
    and "resolveVersion sv p pdsc = Inr (p\<lparr>targetVersion := AllReleases pdsc ! i\<rparr>)"
    by (simp_all add: resolveVersion_def resolveVersionModifier_def GetVersion_def)
next
  assume none: "(\<forall>v \<in> set (AllReleases pdsc).
                \<not> (SemverMajor sv v = SemverMajor sv (Version p)
                    \<and> 0 \<le> SemverCompare sv v (Version p)))
              \<and> AllReleases pdsc \<noteq> [] \<and> Version p \<noteq> []"
  then have unmatched: "firstCompatible sv (Version p) (AllReleases pdsc) = None"
    unfolding firstCompatible_find find_None_iff by blast
  from none assms(4) have latest: "LatestVersion pdsc \<noteq> []"
    by (auto simp: LatestVersion_def split: list.splits)
  from latest none assms(1,2,3)
  show "resolveVersionModifier sv p pdsc = Inr p"
    and "resolveVersion sv p pdsc = Inl ErrPackVersionNotAvailable"
    by (simp_all add: resolveVersion_def resolveVersionModifier_def GetVersion_def unmatched)
qed

text \<open>The resolution of \<^verbatim>\<open>Vendor.Pack@~1.2.0\<close> and of \<^verbatim>\<open>Vendor.Pack@~2.0.0\<close> against the
  releases 1.5.3, 1.2.1, 1.2.0 and 0.9.0.\<close>

lemma greatest_compatible_resolves_first_example:
  "resolveVersion spec_semver (example_ref GreatestCompatibleVersion ''1.2.0'') example_pdsc
     = Inr ((example_ref GreatestCompatibleVersion ''1.2.0'')\<lparr>targetVersion := ''1.5.3''\<rparr>)
   \<and> resolveVersion spec_semver (example_ref GreatestCompatibleVersion ''2.0.0'') example_pdsc
     = Inl ErrPackVersionNotAvailable"
proof -
  let ?p = "example_ref GreatestCompatibleVersion ''1.2.0''"
  let ?q = "example_ref GreatestCompatibleVersion ''2.0.0''"
  have p: "versionModifier ?p = GreatestCompatibleVersion" "targetVersion ?p = []"
    "Version ?p = ''1.2.0''"
    and q: "versionModifier ?q = GreatestCompatibleVersion" "targetVersion ?q = []"
    "Version ?q = ''2.0.0''"
    by (simp_all add: example_ref_def)
  have first: "SemverMajor spec_semver ''1.5.3'' = SemverMajor spec_semver ''1.2.0''"
    "0 \<le> SemverCompare spec_semver ''1.5.3'' ''1.2.0''"
    by code_simp+
  have none: "\<forall>v \<in> set (AllReleases example_pdsc).
    \<not> (SemverMajor spec_semver v = SemverMajor spec_semver ''2.0.0''
        \<and> 0 \<le> SemverCompare spec_semver v ''2.0.0'')"
    by code_simp
  have empty: "SemverCompare spec_semver [] ''1.2.0'' \<le> 0"
    "SemverCompare spec_semver [] ''2.0.0'' \<le> 0"
    by code_simp+
  have rel: "[] \<notin> set (AllReleases example_pdsc)" "AllReleases example_pdsc \<noteq> []"
    "AllReleases example_pdsc ! 0 = ''1.5.3''" "0 < length (AllReleases example_pdsc)"
    by (simp_all add: example_pdsc_def AllReleases_def)
  have a: "resolveVersion spec_semver ?p example_pdsc = Inr (?p\<lparr>targetVersion := ''1.5.3''\<rparr>)"
    using greatest_compatible_resolves_first
        [of ?p spec_semver example_pdsc, THEN conjunct1, THEN spec, of 0]
      p first empty(1) rel
    by simp
  have b: "resolveVersion spec_semver ?q example_pdsc = Inl ErrPackVersionNotAvailable"
    using greatest_compatible_resolves_first
        [of ?q spec_semver example_pdsc, THEN conjunct2]
      q none empty(2) rel(1,2)
    by simp
  from a b show ?thesis by simp
qed

text \<open>
  C4. The \<^verbatim>\<open>@~\<close> branch against a PDSC without a release: for the reference
  \<^verbatim>\<open>Vendor.Pack@~1.2.0\<close> no release has the major number 1, and the spec expects the
  resolution to fail with PackVersionNotAvailable. The function does not get there: the
  log call of its last branch takes \<^verbatim>\<open>pdscXML.LatestVersion()[:1]\<close> of the empty string
  and panics.
\<close>

theorem greatest_compatible_panics_without_releases:
  "AllReleases empty_pdsc = []
   \<and> resolveVersionModifier spec_semver (example_ref GreatestCompatibleVersion ''1.2.0'') empty_pdsc
       = Inl GoPanic
   \<and> resolveVersion spec_semver (example_ref GreatestCompatibleVersion ''1.2.0'') empty_pdsc
       = Inl GoPanic
   \<and> resolveVersion spec_semver (example_ref GreatestCompatibleVersion ''1.2.0'') empty_pdsc
       \<noteq> Inl ErrPackVersionNotAvailable"
proof -
  have cmp: "\<not> 0 < SemverCompare spec_semver [] ''1.2.0''"
    by code_simp
  then show ?thesis
    by (simp add: resolveVersion_def resolveVersionModifier_def example_ref_def empty_pdsc_def
        AllReleases_def LatestVersion_def)
qed
subsection \<open>Paths\<close>

lemma Split_nonempty [simp]: "Split sep s \<noteq> []"
  by (induction s) (auto split: list.splits)

lemma Split_append_sep: "Split sep (a @ sep # b) = Split sep a @ Split sep b"
  by (induction a) (auto split: list.splits)

lemma Split_no_sep: "sep \<notin> set s \<Longrightarrow> Split sep s = [s]"
  by (induction s) auto

lemma Split_parts_no_sep: "c \<in> set (Split sep s) \<Longrightarrow> sep \<notin> set c"
  by (induction s arbitrary: c) (auto split: if_splits list.splits)

lemma Split_JoinSlash:
  "ws \<noteq> [] \<Longrightarrow> \<forall>w\<in>set ws. slash \<notin> set w \<Longrightarrow> Split slash (JoinSlash ws) = ws"
proof (induction ws rule: JoinSlash.induct)
  case 1
  then show ?case by simp
next
  case (2 w)
  then show ?case by (simp add: Split_no_sep)
next
  case (3 w v vs)
  then show ?case
    by (simp add: Split_append_sep Split_no_sep)
qed

lemma clean_step_name [simp]: "is_name c \<Longrightarrow> clean_step r out c = out @ [c]"
  by (simp add: clean_step_def is_name_def)

lemma walk_names: "list_all is_name ns \<Longrightarrow> foldl (clean_step r) out ns = out @ ns"
  by (induction ns arbitrary: out) auto

lemma clean_step_True_names:
  "list_all is_name out \<Longrightarrow> slash \<notin> set c \<Longrightarrow> list_all is_name (clean_step True out c)"
  by (cases out rule: rev_cases) (auto simp: clean_step_def is_name_def)

lemma walk_True_names:
  "list_all is_name out \<Longrightarrow> \<forall>c\<in>set cs. slash \<notin> set c
     \<Longrightarrow> list_all is_name (foldl (clean_step True) out cs)"
  by (induction cs arbitrary: out) (auto simp: clean_step_True_names)

lemma os_path_names: "list_all is_name (os_path s)"
  unfolding os_path_def
  by (rule walk_True_names) (auto dest: Split_parts_no_sep)

lemma os_path_append_sep:
  "os_path (a @ slash # b) = foldl (clean_step True) (os_path a) (Split slash b)"
  by (simp add: os_path_def Split_append_sep)

lemma os_path_Nil [simp]: "os_path [] = []"
  by (simp add: os_path_def clean_step_def)

lemma os_path_rendered:
  assumes "list_all is_name out"
  shows "os_path (slash # JoinSlash out) = out"
proof (cases "out = []")
  case True
  then show ?thesis by (simp add: os_path_def clean_step_def)
next
  case False
  have "\<forall>w\<in>set out. slash \<notin> set w"
    using assms by (auto simp: list_all_iff is_name_def)
  with False have "Split slash (JoinSlash out) = out"
    by (simp add: Split_JoinSlash)
  then have "os_path (slash # JoinSlash out) = foldl (clean_step True) [] ([] # out)"
    by (simp add: os_path_def)
  also have "\<dots> = out"
    using assms by (simp add: clean_step_def walk_names)
  finally show ?thesis .
qed

lemma clean_step_False_shape:
  assumes "list_all is_name ns" and "slash \<notin> set c"
  shows "\<exists>k'. clean_step False (replicate k ''..'' @ ns) c
                = replicate k' ''..'' @ clean_step True ns c"
proof (cases "c = [] \<or> c = ''.''")
  case True
  then show ?thesis by (auto simp: clean_step_def)
next
  case False
  show ?thesis
  proof (cases "c = ''..''")
    case dots: True
    show ?thesis
    proof (cases ns rule: rev_cases)
      case Nil
      have "clean_step False (replicate k ''..'') ''..'' = replicate (Suc k) ''..''"
        by (cases k) (auto simp: clean_step_def replicate_append_same)
      with Nil dots show ?thesis
        by (auto simp: clean_step_def intro: exI [where x = "Suc k"])
    next
      case (snoc ms m)
      with assms(1) have "m \<noteq> ''..''"
        by (auto simp: is_name_def)
      with snoc dots show ?thesis
        by (auto simp: clean_step_def butlast_append intro: exI [where x = k])
    qed
  next
    case name: False
    with False assms(2) have "is_name c"
      by (simp add: is_name_def)
    then show ?thesis
      by (auto intro: exI [where x = k])
  qed
qed

lemma walk_False_shape:
  assumes "\<forall>c\<in>set cs. slash \<notin> set c" and "list_all is_name ns"
  shows "\<exists>k'. foldl (clean_step False) (replicate k ''..'' @ ns) cs
                = replicate k' ''..'' @ foldl (clean_step True) ns cs"
  using assms
proof (induction cs arbitrary: k ns)
  case Nil
  then show ?case by auto
next
  case (Cons c cs)
  from Cons.prems have c: "slash \<notin> set c" and cs: "\<forall>c\<in>set cs. slash \<notin> set c"
    by auto
  from clean_step_False_shape [OF Cons.prems(2) c, of k] obtain k1 where
    k1: "clean_step False (replicate k ''..'' @ ns) c = replicate k1 ''..'' @ clean_step True ns c"
    by blast
  have "list_all is_name (clean_step True ns c)"
    using Cons.prems(2) c by (rule clean_step_True_names)
  from Cons.IH [OF cs this, of k1] k1 show ?case
    by simp
qed

lemma walk_True_dots: "foldl (clean_step True) [] (replicate k ''..'') = []"
  by (induction k) (auto simp: clean_step_def)

lemma os_path_dot: "os_path ''.'' = []"
  by code_simp

lemma Clean_Nil: "Clean [] = ''.''"
  by (simp add: Clean_def)

lemma Clean_rooted:
  assumes "s \<noteq> []" and "hd s = slash"
  shows "Clean s = slash # JoinSlash (os_path s)"
proof -
  have "Clean s = (let out = foldl (clean_step True) [] (Split slash s) in slash # JoinSlash out)"
    unfolding Clean_def Let_def using assms by simp
  then show ?thesis
    by (simp only: Let_def os_path_def)
qed

lemma Clean_unrooted:
  assumes "s \<noteq> []" and "hd s \<noteq> slash"
  shows "Clean s = (if foldl (clean_step False) [] (Split slash s) = [] then ''.''
                    else JoinSlash (foldl (clean_step False) [] (Split slash s)))"
  unfolding Clean_def Let_def using assms by simp

lemma os_path_Clean: "os_path (Clean s) = os_path s"
proof (cases "s = []")
  case True
  then show ?thesis by (simp only: Clean_Nil os_path_dot os_path_Nil)
next
  case False
  have parts: "\<forall>c\<in>set (Split slash s). slash \<notin> set c"
    by (blast dest: Split_parts_no_sep)
  show ?thesis
  proof (cases "hd s = slash")
    case True
    show ?thesis
      unfolding Clean_rooted [OF False True]
      by (rule os_path_rendered) (rule os_path_names)
  next
    case unrooted: False
    have "list_all is_name ([]::string list)" by simp
    from walk_False_shape [OF parts this, of 0] obtain k where
      k: "foldl (clean_step False) [] (Split slash s) = replicate k ''..'' @ os_path s"
      unfolding os_path_def by auto
    let ?out = "replicate k ''..'' @ os_path s"
    show ?thesis
    proof (cases "?out = []")
      case True
      then have "os_path s = []" by simp
      moreover have "Clean s = ''.''"
        unfolding Clean_unrooted [OF False unrooted] k using True by simp
      ultimately show ?thesis by (simp only: os_path_dot)
    next
      case nonempty: False
      have c: "Clean s = JoinSlash ?out"
        unfolding Clean_unrooted [OF False unrooted] k using nonempty by simp
      have dots: "slash \<notin> set ''..''"
        by code_simp
      have "\<forall>w\<in>set (os_path s). slash \<notin> set w"
        using os_path_names [of s] unfolding list_all_iff is_name_def by blast
      with dots have "\<forall>w\<in>set ?out. slash \<notin> set w"
        by auto
      with nonempty have "Split slash (JoinSlash ?out) = ?out"
        by (rule Split_JoinSlash)
      then have "os_path (JoinSlash ?out) = foldl (clean_step True) [] ?out"
        by (simp only: os_path_def)
      also have "\<dots> = os_path s"
        by (simp only: foldl_append walk_True_dots walk_names [OF os_path_names] append_Nil)
      finally show ?thesis unfolding c .
    qed
  qed
qed

lemma Split_Nil: "Split sep [] = [[]]"
  by simp

lemma clean_step_empty [simp]: "clean_step r out [] = out"
  by (simp add: clean_step_def)






lemma clean_step_True_cases:
  "clean_step True out c = out \<or> clean_step True out c = butlast out
   \<or> clean_step True out c = out @ [c]"
  by (simp add: clean_step_def)

lemma os_path_Dir:
  "\<exists>e. os_path x = clean_step True (os_path (Dir x)) e"
proof -
  let ?e = "rev (takeWhile (\<lambda>c. c \<noteq> slash) (rev x))"
  let ?pre = "rev (dropWhile (\<lambda>c. c \<noteq> slash) (rev x))"
  have x: "x = ?pre @ ?e"
    by (metis rev_append rev_rev_ident takeWhile_dropWhile_id)
  have e: "slash \<notin> set ?e"
    by (auto dest: set_takeWhileD)
  have d: "os_path (Dir x) = os_path ?pre"
    by (simp only: Dir_def os_path_Clean)
  show ?thesis
  proof (cases "?pre = []")
    case True
    with x have "x = ?e" by simp
    then have "os_path x = clean_step True [] ?e"
      using e by (metis Split_no_sep foldl_Cons foldl_Nil os_path_def)
    with d True show ?thesis by (metis os_path_Nil)
  next
    case False
    then have "hd (dropWhile (\<lambda>c. c \<noteq> slash) (rev x)) = slash"
      using hd_dropWhile [of "\<lambda>c. c \<noteq> slash" "rev x"] by auto
    moreover from False obtain c cs where "dropWhile (\<lambda>c. c \<noteq> slash) (rev x) = c # cs"
      by (cases "dropWhile (\<lambda>c. c \<noteq> slash) (rev x)") auto
    ultimately have pre: "?pre = rev cs @ [slash]"
      by simp
    define pre' where "pre' = rev cs"
    note pre = pre [folded pre'_def]
    with x have "x = pre' @ slash # ?e" by simp
    then have "os_path x = foldl (clean_step True) (os_path pre') (Split slash ?e)"
      by (metis os_path_append_sep)
    then have 1: "os_path x = clean_step True (os_path pre') ?e"
      using e by (simp add: Split_no_sep)
    have "os_path (pre' @ slash # []) = foldl (clean_step True) (os_path pre') (Split slash [])"
      by (rule os_path_append_sep)
    then have "os_path ?pre = os_path pre'"
      using pre by simp
    with 1 d show ?thesis by metis
  qed
qed

lemma os_path_Dir_cases:
  "prefix (os_path (Dir x)) (os_path x) \<or> prefix (os_path x) (os_path (Dir x))"
proof -
  from os_path_Dir [of x] obtain e where "os_path x = clean_step True (os_path (Dir x)) e"
    by blast
  with clean_step_True_cases [of "os_path (Dir x)" e] show ?thesis
    by (auto simp: prefixeq_butlast)
qed

subsection \<open>The file system\<close>

lemma map_of_filter_key:
  "map_of (filter (\<lambda>(k, n). P k) t) r = (if P r then map_of t r else None)"
  by (induction t) auto

lemma node_at_root [simp]: "node_at t [] = Some Directory"
  by (simp add: node_at_def)

lemma node_at_fs_del:
  "node_at (fs_del t q) r = (if r = [] then Some Directory else if r = q then None else node_at t r)"
  by (simp add: node_at_def fs_del_def map_of_filter_key)

lemma node_at_fs_put:
  "node_at (fs_put t q n) r = (if r = [] then Some Directory else if r = q then Some n else node_at t r)"
  by (simp add: fs_put_def node_at_def fs_del_def map_of_filter_key)

lemma node_at_remove_below:
  "node_at (filter (\<lambda>(k, n). \<not> prefix q k) t) r =
     (if r = [] then Some Directory else if prefix q r then None else node_at t r)"
  by (simp add: node_at_def map_of_filter_key)

lemma open_trunc_node:
  assumes "open_trunc t p perm = Inr t'"
  shows "\<exists>m. node_at t' (os_path p) = Some (File [] m)
           \<and> (\<forall>r. r \<noteq> os_path p \<longrightarrow> node_at t' r = node_at t r)"
  using assms
  by (auto simp: open_trunc_def Let_def node_at_fs_put
      split: if_splits option.splits node.splits file_mode.splits)

lemma os_Create_node:
  assumes "os_Create t p = Inr t'"
  shows "\<exists>m. node_at t' (os_path p) = Some (File [] m)
           \<and> (\<forall>r. r \<noteq> os_path p \<longrightarrow> node_at t' r = node_at t r)"
  using assms unfolding os_Create_def by (rule open_trunc_node)

lemma write_file_node:
  "node_at (write_file t p data) r =
     (if r = os_path p
      then (case node_at t r of Some (File old m) \<Rightarrow> Some (File data m) | other \<Rightarrow> other)
      else node_at t r)"
  by (auto simp: write_file_def node_at_fs_put split: option.splits node.splits)

lemma is_file_in_keys: "is_file t q \<Longrightarrow> q \<in> fst ` set t"
  by (auto simp: is_file_def node_at_def image_iff split: if_splits option.splits node.splits
      dest!: map_of_SomeD intro: bexI [where x = "(q, n)" for n])

lemma keeps_files_iff: "keeps_files t t' \<longleftrightarrow> (\<forall>q. is_file t q \<longrightarrow> is_file t' q)"
proof
  assume k: "keeps_files t t'"
  show "\<forall>q. is_file t q \<longrightarrow> is_file t' q"
  proof (intro allI impI)
    fix q assume f: "is_file t q"
    then obtain n where "(q, n) \<in> set t"
      using is_file_in_keys [OF f] by auto
    with k f show "is_file t' q"
      by (auto simp: keeps_files_def list_all_iff)
  qed
next
  assume "\<forall>q. is_file t q \<longrightarrow> is_file t' q"
  then show "keeps_files t t'"
    by (auto simp: keeps_files_def list_all_iff)
qed

lemma keeps_files_refl [simp]: "keeps_files t t"
  by (simp add: keeps_files_iff)



lemma mkdir_missing_node:
  "node_at (mkdir_missing t z) r =
     (if r = z \<and> node_at t z = None then Some Directory else node_at t r)"
  by (auto simp: mkdir_missing_def node_at_fs_put)

lemma foldl_mkdir_missing_node:
  "node_at (foldl mkdir_missing t zs) r =
     (if r \<in> set zs \<and> node_at t r = None then Some Directory else node_at t r)"
proof (induction zs arbitrary: t)
  case Nil
  then show ?case by simp
next
  case (Cons z zs)
  show ?case
    by (auto simp: Cons.IH mkdir_missing_node)
qed

lemma os_MkdirAll_node:
  assumes "os_MkdirAll t p = Inr t'"
  shows "node_at t' r =
     (if prefix r (os_path p) \<and> node_at t r = None then Some Directory else node_at t r)"
  using assms
  by (auto simp: os_MkdirAll_def foldl_mkdir_missing_node in_set_prefixes split: if_splits)

lemma EnsureDir_node:
  assumes "EnsureDir t p = (e, t')"
  shows "node_at t' r = node_at t r
         \<or> (e = None \<and> prefix r (os_path p) \<and> node_at t r = None \<and> node_at t' r = Some Directory)"
  using assms
  by (auto simp: EnsureDir_def os_MkdirAll_node split: sum.splits)







subsection \<open>Downloads\<close>

text \<open>
  C2, as the code has it. When the destination can be created and the response has a
  status other than 200 (every status that is not 2xx is one), \<^verbatim>\<open>DownloadFile\<close> returns
  BadRequest, and the destination file it has created stays in the cache directory,
  empty: nothing removes it.
\<close>

theorem download_bad_status_leaves_file:
  assumes "os_Create t (Join [CacheDir, Base url]) = Inr t1"
    and "http_Get url = HttpResponse status body complete"
    and "status \<noteq> 200"
  shows "DownloadFile CacheDir http_Get url t = (Inl ErrBadRequest, t1)
         \<and> (\<exists>m. node_at t1 (os_path (Join [CacheDir, Base url])) = Some (File [] m))"
proof -
  have "DownloadFile CacheDir http_Get url t = (Inl ErrBadRequest, t1)"
    using assms by (simp add: DownloadFile_def Let_def)
  moreover have "\<exists>m. node_at t1 (os_path (Join [CacheDir, Base url])) = Some (File [] m)"
    using os_Create_node [OF assms(1)] by blast
  ultimately show ?thesis by simp
qed

theorem download_bad_status_leaves_file_witness:
  "DownloadFile ''/cache'' not_found_server ''https://example.com/Vendor.Pack.1.0.0.pack''
       example_fs
     = (Inl ErrBadRequest,
        fs_put example_fs [''cache'', ''Vendor.Pack.1.0.0.pack''] (File [] ModeRW))"
proof -
  have created:
    "os_Create example_fs (Join [''/cache'', Base ''https://example.com/Vendor.Pack.1.0.0.pack''])
       = Inr (fs_put example_fs [''cache'', ''Vendor.Pack.1.0.0.pack''] (File [] ModeRW))"
    by code_simp
  have response:
    "not_found_server ''https://example.com/Vendor.Pack.1.0.0.pack''
       = HttpResponse 404 ''not found'' True"
    by (simp add: not_found_server_def)
  show ?thesis
    using download_bad_status_leaves_file
        [of example_fs "''/cache''" "''https://example.com/Vendor.Pack.1.0.0.pack''" _
          not_found_server 404 "''not found''" True]
      created response
    by simp
qed

text \<open>
  C2 as stated fails: after a 404 the file that \<^verbatim>\<open>DownloadFile\<close> has created in the cache
  directory, and that was not there before, is on disk.
\<close>

theorem download_bad_status_deletes_file_counterexample:
  "fst (DownloadFile ''/cache'' not_found_server
          ''https://example.com/Vendor.Pack.1.0.0.pack'' example_fs) = Inl ErrBadRequest
   \<and> node_at example_fs [''cache'', ''Vendor.Pack.1.0.0.pack''] = None
   \<and> node_at (snd (DownloadFile ''/cache'' not_found_server
                     ''https://example.com/Vendor.Pack.1.0.0.pack'' example_fs))
        [''cache'', ''Vendor.Pack.1.0.0.pack''] = Some (File [] ModeRW)"
  by code_simp

subsection \<open>Uninstalling\<close>

lemma os_RemoveAll_keeps_absent:
  assumes "os_RemoveAll t p = Inr t'" and "node_at t r = None"
  shows "node_at t' r = None"
  using assms
  by (auto simp: os_RemoveAll_def Let_def node_at_remove_below split: if_splits)

lemma os_Remove_keeps_absent:
  assumes "os_Remove t p = Inr t'" and "node_at t r = None"
  shows "node_at t' r = None"
  using assms
  by (auto simp: os_Remove_def Let_def node_at_fs_del
      split: if_splits option.splits node.splits)

lemma os_Remove_absent:
  assumes "node_at t (os_path p) = None"
  shows "os_Remove t p = Inl (missing t (os_path p))"
  using assms by (simp add: os_Remove_def Let_def)

text \<open>
  C9, as the code has it. When the uninstall of a pack that is not public has emptied and
  removed the Vendor/Pack directory and there is no \<^verbatim>\<open>.Local/Vendor.Pack.pdsc\<close>,
  \<^verbatim>\<open>uninstall\<close> returns the error of \<^verbatim>\<open>os.Remove\<close> for that file; the pack's files are gone
  by then.
\<close>

theorem uninstall_missing_local_pdsc_is_error:
  assumes "os_RemoveAll t (Join [PackRoot inst, Vendor p, Name p, GetVersion p]) = Inr t1"
    and "IsEmpty t1 (Join [PackRoot inst, Vendor p, Name p])"
    and "os_Remove t1 (Join [PackRoot inst, Vendor p, Name p]) = Inr t2"
    and "\<not> IsPublic p"
    and "node_at t (os_path (Join [LocalDir inst, PdscFileName p])) = None"
  shows "\<exists>e. uninstall inst p t = (Some (ErrOS e), t2)"
proof -
  have "node_at t1 (os_path (Join [LocalDir inst, PdscFileName p])) = None"
    using os_RemoveAll_keeps_absent [OF assms(1) assms(5)] .
  then have "node_at t2 (os_path (Join [LocalDir inst, PdscFileName p])) = None"
    using os_Remove_keeps_absent [OF assms(3)] by simp
  then have "os_Remove t2 (Join [LocalDir inst, PdscFileName p])
               = Inl (missing t2 (os_path (Join [LocalDir inst, PdscFileName p])))"
    by (rule os_Remove_absent)
  then show ?thesis
    using assms(1-4) by (simp add: uninstall_def Let_def)
qed

theorem uninstall_missing_local_pdsc_is_error_witness:
  "\<exists>e. uninstall example_installation (example_ref ExactVersion ''1.0.0'') installed_fs
         = (Some (ErrOS e),
            fs_del (filter (\<lambda>(k, n). \<not> prefix [''packs'', ''Vendor'', ''Pack'', ''1.0.0''] k)
                      installed_fs)
              [''packs'', ''Vendor'', ''Pack''])"
proof -
  let ?p = "example_ref ExactVersion ''1.0.0''"
  let ?t1 = "filter (\<lambda>(k, n). \<not> prefix [''packs'', ''Vendor'', ''Pack'', ''1.0.0''] k) installed_fs"
  have removed:
    "os_RemoveAll installed_fs
       (Join [PackRoot example_installation, Vendor ?p, Name ?p, GetVersion ?p]) = Inr ?t1"
    by code_simp
  have empty: "IsEmpty ?t1 (Join [PackRoot example_installation, Vendor ?p, Name ?p])"
    by code_simp
  have pruned:
    "os_Remove ?t1 (Join [PackRoot example_installation, Vendor ?p, Name ?p])
       = Inr (fs_del ?t1 [''packs'', ''Vendor'', ''Pack''])"
    by code_simp
  have nonpublic: "\<not> IsPublic ?p"
    by (simp add: example_ref_def)
  have absent:
    "node_at installed_fs (os_path (Join [LocalDir example_installation, PdscFileName ?p])) = None"
    by code_simp
  show ?thesis
    using uninstall_missing_local_pdsc_is_error [OF removed empty pruned nonpublic absent] .
qed

text \<open>
  C9 as stated fails: Vendor.Pack 1.0.0 is installed, not public, the only version, and
  has no descriptor in \<^verbatim>\<open>.Local\<close>; the uninstall returns an error.
\<close>

theorem uninstall_tolerates_missing_local_pdsc_counterexample:
  "node_at installed_fs [''packs'', ''.Local'', ''Vendor.Pack.pdsc''] = None
   \<and> fst (uninstall example_installation (example_ref ExactVersion ''1.0.0'') installed_fs)
       = Some (ErrOS ENOENT)"
  by code_simp

subsection \<open>Validation\<close>

lemma validateLoop_find:
  "validateLoop env p files t =
     (case find (\<lambda>file. Base (zName file) = PdscFileName p) files of
        None \<Rightarrow> (Some ErrPdscFileNotFound, p, t)
      | Some file \<Rightarrow> validateEntry env p file t)"
  by (induction files) simp_all

lemma GetVersion_Subfolder [simp]: "GetVersion (p\<lparr>Subfolder := s\<rparr>) = GetVersion p"
  by (simp add: GetVersion_def)

lemma GetVersion_Pdsc [simp]: "GetVersion (p\<lparr>Pdsc := d\<rparr>) = GetVersion p"
  by (simp add: GetVersion_def)

lemma FindReleaseTagByVersion_None:
  "FindReleaseTagByVersion pdsc version = None \<longleftrightarrow> version \<notin> set (AllReleases pdsc)"
  by (auto simp: FindReleaseTagByVersion_def find_None_iff)

text \<open>
  C5. When the PDSC of the pack is found in the archive, at most one directory deep,
  and has been extracted and read: validation succeeds exactly when the version being
  installed equals LatestVersion(); otherwise it fails with PackVersionNotFoundInPdsc
  when the version is in none of the releases, and with PackVersionNotLatestReleasePdsc
  when it is in the releases and not the latest.
\<close>

theorem validate_checks_latest_release:
  assumes "find (\<lambda>file. Base (zName file) = PdscFileName p) (zipReader p) = Some file"
    and "Count (zName file) slash + Count (zName file) backslash \<le> 1"
    and "SecureInflateFile (ShouldAbort env 0) file (RandStringBytes env) [] t = (None, t1)"
    and "ReadXML (xml_Unmarshal env) t1 (Join [RandStringBytes env, zName file]) = Inr pdsc"
  shows "fst (validate env p t) =
           (if LatestVersion pdsc = GetVersion p then None
            else if GetVersion p \<notin> set (AllReleases pdsc)
            then Some ErrPackVersionNotFoundInPdsc
            else Some ErrPackVersionNotLatestReleasePdsc)"
proof -
  have "validate env p t = validateEntry env p file t"
    using assms(1) by (simp add: validate_def validateLoop_find)
  moreover have "\<not> 1 < Count (zName file) slash + Count (zName file) backslash"
    using assms(2) by simp
  ultimately show ?thesis
    using assms(3,4)
    by (simp add: validateEntry_def Let_def FindReleaseTagByVersion_None LatestVersion_def
        AllReleases_def)
qed

theorem validate_checks_latest_release_witness:
  "fst (validate (example_env ''a'') (example_pack\<lparr>zipReader := newer_entries\<rparr>) example_fs)
     = Some ErrPackVersionNotLatestReleasePdsc
   \<and> fst (validate (example_env ''a'')
            (example_pack\<lparr>Version := ''3.0.0'', zipReader := newer_entries\<rparr>) example_fs)
     = Some ErrPackVersionNotFoundInPdsc
   \<and> fst (validate (example_env ''a'')
            (example_pack\<lparr>Version := ''2.0.0'', zipReader := newer_entries\<rparr>) example_fs)
     = None"
proof -
  let ?env = "example_env ''a''"
  let ?file = "\<lparr> zName = ''Vendor.Pack.pdsc'', zBody = Some ''PDSC2'', zReadError = False \<rparr>"
  let ?t1 = "snd (SecureInflateFile False ?file ''XVlBzgbaiC'' [] example_fs)"
  have found:
    "find (\<lambda>file. Base (zName file) = PdscFileName (example_pack\<lparr>Version := v, zipReader := newer_entries\<rparr>))
       (zipReader (example_pack\<lparr>Version := v, zipReader := newer_entries\<rparr>)) = Some ?file" for v
    by code_simp
  have found1:
    "find (\<lambda>file. Base (zName file) = PdscFileName (example_pack\<lparr>zipReader := newer_entries\<rparr>))
       (zipReader (example_pack\<lparr>zipReader := newer_entries\<rparr>)) = Some ?file"
    by code_simp
  have depth: "Count (zName ?file) slash + Count (zName ?file) backslash \<le> 1"
    by code_simp
  have inflated:
    "SecureInflateFile (ShouldAbort ?env 0) ?file (RandStringBytes ?env) [] example_fs = (None, ?t1)"
    by code_simp
  have parsed:
    "ReadXML (xml_Unmarshal ?env) ?t1 (Join [RandStringBytes ?env, zName ?file]) = Inr example_pdsc2"
    by code_simp
  have versions:
    "GetVersion (example_pack\<lparr>zipReader := newer_entries\<rparr>) = ''1.0.0''"
    "GetVersion (example_pack\<lparr>Version := v, zipReader := newer_entries\<rparr>) = v"
    "LatestVersion example_pdsc2 = ''2.0.0''"
    "set (AllReleases example_pdsc2) = {''2.0.0'', ''1.0.0''}" for v
    by (simp_all add: GetVersion_def example_pack_def example_ref_def LatestVersion_def
        AllReleases_def example_pdsc2_def)
  show ?thesis
    using validate_checks_latest_release [OF found1 depth inflated parsed]
      validate_checks_latest_release [OF found [of "''3.0.0''"] depth inflated parsed]
      validate_checks_latest_release [OF found [of "''2.0.0''"] depth inflated parsed]
    by (simp add: versions)
qed

subsection \<open>Installing\<close>

lemma os_RemoveAll_node:
  assumes "os_RemoveAll t p = Inr t'"
  shows "node_at t' r = node_at t r \<or> (prefix (os_path p) r \<and> node_at t' r = None)"
  using assms
  by (auto simp: os_RemoveAll_def Let_def node_at_remove_below split: if_splits)

lemma removeTmp_node:
  "node_at (removeTmp t tmp) r = node_at t r
   \<or> (prefix (os_path tmp) r \<and> node_at (removeTmp t tmp) r = None)"
  using os_RemoveAll_node [of t tmp]
  by (auto simp: removeTmp_def split: sum.splits)



lemma validateEntry_effect:
  assumes "validateEntry env p file t = (e, p', t')"
  shows "t' = t
         \<or> (\<exists>e1 t1. SecureInflateFile (ShouldAbort env 0) file (RandStringBytes env) [] t = (e1, t1)
                       \<and> t' = removeTmp t1 (RandStringBytes env))"
  using assms
  by (auto simp: validateEntry_def Let_def split: if_splits prod.splits option.splits sum.splits)

lemma validate_effect:
  assumes "validate env p t = (e, p', t')"
  shows "t' = t
         \<or> (\<exists>file e1 t1. SecureInflateFile (ShouldAbort env 0) file (RandStringBytes env) [] t = (e1, t1)
                       \<and> t' = removeTmp t1 (RandStringBytes env))"
proof (cases "find (\<lambda>file. Base (zName file) = PdscFileName p) (zipReader p)")
  case None
  with assms show ?thesis
    by (simp add: validate_def validateLoop_find)
next
  case (Some entry)
  with assms have "validateEntry env p entry t = (e, p', t')"
    by (simp add: validate_def validateLoop_find)
  from validateEntry_effect [OF this] show ?thesis by blast
qed




lemma CopyFile_done:
  assumes "CopyFile t src dst = (None, t')"
  shows "is_file t' (os_path dst) \<and> is_file t' (os_path src)"
proof -
  from assms obtain n t1 data m where
    c: "os_Create t dst = Inr t1" and
    s: "node_at t1 (os_path src) = Some (File data m)" and
    t': "t' = write_file t1 dst data"
    by (auto simp: CopyFile_def split: sum.splits option.splits node.splits)
  from os_Create_node [OF c] obtain m' where "node_at t1 (os_path dst) = Some (File [] m')"
    by blast
  with s t' show ?thesis
    by (auto simp: is_file_def write_file_node)
qed

text \<open>A copy to another path: the destination holds the bytes of the source, which is as
  it was.\<close>

lemma CopyFile_copies:
  assumes "CopyFile t src dst = (None, t')"
    and "node_at t (os_path src) = Some (File data m)"
    and "os_path src \<noteq> os_path dst"
  shows "(\<exists>m'. node_at t' (os_path dst) = Some (File data m'))
         \<and> node_at t' (os_path src) = Some (File data m)"
proof -
  from assms(1) obtain t1 data1 m1 where
    c: "os_Create t dst = Inr t1" and
    s: "node_at t1 (os_path src) = Some (File data1 m1)" and
    t': "t' = write_file t1 dst data1"
    by (auto simp: CopyFile_def split: sum.splits option.splits node.splits)
  from os_Create_node [OF c] assms(3) obtain m' where
    d: "node_at t1 (os_path dst) = Some (File [] m')" and
    same: "node_at t1 (os_path src) = node_at t (os_path src)"
    by blast
  from same s assms(2) have "data1 = data" "m1 = m" by simp_all
  with s d t' assms(3) show ?thesis
    by (simp add: write_file_node)
qed

text \<open>A copy of a file onto itself: the file is truncated before it is read, and is
  empty afterwards.\<close>

lemma CopyFile_onto_itself:
  assumes "CopyFile t src dst = (None, t')" and "os_path src = os_path dst"
  shows "\<exists>m. node_at t' (os_path src) = Some (File [] m)"
proof -
  from assms(1) obtain t1 data1 m1 where
    c: "os_Create t dst = Inr t1" and
    s: "node_at t1 (os_path src) = Some (File data1 m1)" and
    t': "t' = write_file t1 dst data1"
    by (auto simp: CopyFile_def split: sum.splits option.splits node.splits)
  from os_Create_node [OF c] obtain m' where
    d: "node_at t1 (os_path dst) = Some (File [] m')"
    by blast
  with s assms(2) have "data1 = []" by simp
  with d t' assms(2) show ?thesis
    by (simp add: write_file_node)
qed

lemma MoveFile_done:
  assumes "MoveFile t src dst = (None, t')" and "is_file t (os_path src)"
  shows "is_file t' (os_path dst)
         \<and> (os_path src \<noteq> os_path dst \<longrightarrow> node_at t' (os_path src) = None)"
  using assms
  by (auto simp: MoveFile_def os_Rename_def Let_def is_file_def node_at_fs_put node_at_fs_del
      split: sum.splits option.splits node.splits if_splits)

text \<open>A move to another path: the destination is the file, the source is gone.\<close>

lemma MoveFile_moves:
  assumes "MoveFile t src dst = (None, t')"
    and "node_at t (os_path src) = Some (File data m)"
    and "os_path src \<noteq> os_path dst"
  shows "node_at t' (os_path dst) = Some (File data m) \<and> node_at t' (os_path src) = None"
  using assms
  by (auto simp: MoveFile_def os_Rename_def Let_def node_at_fs_put node_at_fs_del
      split: sum.splits if_splits)





text \<open>
  The last step of \<^verbatim>\<open>install\<close> where the archive is not yet at the backup path
  \<^verbatim>\<open>.Download/Vendor.Pack.X.Y.Z.pack\<close>: a local archive is copied there, bytes and all, and
  is as it was; a downloaded archive with another base name is moved there and is gone
  from its path; a downloaded archive with this base name already stays where it is.
\<close>

lemma saveArchive_disposition:
  assumes "saveArchive p backup t = (None, p', t')"
    and "node_at t (os_path (path p)) = Some (File data m)"
    and "os_path (path p) \<noteq> os_path backup"
  shows "(\<not> isDownloaded p \<longrightarrow>
            (\<exists>m'. node_at t' (os_path backup) = Some (File data m'))
            \<and> node_at t' (os_path (path p)) = Some (File data m))
         \<and> (isDownloaded p \<and> Base (path p) \<noteq> Base backup \<longrightarrow>
              node_at t' (os_path backup) = Some (File data m)
              \<and> node_at t' (os_path (path p)) = None \<and> path p' = backup)
         \<and> (isDownloaded p \<and> Base (path p) = Base backup \<longrightarrow> t' = t \<and> p' = p)"
proof (cases "isDownloaded p")
  case False
  with assms(1) have "CopyFile t (path p) backup = (None, t')"
    by (auto simp: saveArchive_def split: prod.splits)
  from CopyFile_copies [OF this assms(2,3)] False show ?thesis by simp
next
  case True
  show ?thesis
  proof (cases "Base (path p) = Base backup")
    case same: True
    with assms(1) True show ?thesis
      by (auto simp: saveArchive_def)
  next
    case differ: False
    with assms(1) True have "MoveFile t (path p) backup = (None, t')" "p' = p\<lparr>path := backup\<rparr>"
      by (auto simp: saveArchive_def split: prod.splits option.splits)
    with MoveFile_moves [OF this(1) assms(2,3)] True differ show ?thesis by simp
  qed
qed

text \<open>
  C7. The local archive that is already at the backup path: the user installs the file
  \<^verbatim>\<open>/packs/.Download/Vendor.Pack.1.0.0.pack\<close> of the pack root \<^verbatim>\<open>/packs\<close>. The spec expects
  the archive to be copied and the original to be preserved. \<^verbatim>\<open>install\<close> returns no error,
  and the archive, which held the bytes ZIP1, is empty afterwards: \<^verbatim>\<open>CopyFile\<close> is called
  with the same path as source and destination and truncates the file before reading it.
\<close>

theorem install_empties_archive_at_backup_path:
  "\<not> isDownloaded cached_pack
   \<and> path cached_pack = packBackupPath example_installation cached_pack
   \<and> node_at cached_fs [''packs'', ''.Download'', ''Vendor.Pack.1.0.0.pack'']
       = Some (File ''ZIP1'' ModeRW)
   \<and> fst cached_installed = None
   \<and> node_at (fst (snd (snd cached_installed)))
        [''packs'', ''.Download'', ''Vendor.Pack.1.0.0.pack'']
       = Some (File [] ModeRW)"
  by code_simp

text \<open>
  A downloaded archive whose base name is \<^verbatim>\<open>Vendor.Pack.1.0.0.pack\<close> already, in a cache
  directory that is not \<^verbatim>\<open>.Download\<close>: the archive is downloaded from
  \<^verbatim>\<open>https://example.com/Vendor.Pack.1.0.0.pack\<close> into \<^verbatim>\<open>/cache\<close> and the install
  succeeds; the archive is still in the cache directory, and there is no
  \<^verbatim>\<open>.Download/Vendor.Pack.1.0.0.pack\<close>.
\<close>

lemma install_leaves_download_in_cache_example:
  "fst (fetched ''https://example.com/Vendor.Pack.1.0.0.pack'') = None
   \<and> isDownloaded (fst (snd (fetched ''https://example.com/Vendor.Pack.1.0.0.pack'')))
   \<and> fst (fetched_installed ''https://example.com/Vendor.Pack.1.0.0.pack'') = None
   \<and> is_file (fst (snd (snd (fetched_installed ''https://example.com/Vendor.Pack.1.0.0.pack''))))
         [''cache'', ''Vendor.Pack.1.0.0.pack'']
   \<and> node_at (fst (snd (snd (fetched_installed ''https://example.com/Vendor.Pack.1.0.0.pack''))))
         [''packs'', ''.Download'', ''Vendor.Pack.1.0.0.pack''] = None"
  by code_simp
subsection \<open>Extraction\<close>

lemma EnsureDir_only_directories:
  assumes "EnsureDir t p = (e, t')"
  shows "node_at t' q = node_at t q \<or> (node_at t q = None \<and> node_at t' q = Some Directory)"
  using EnsureDir_node [OF assms, of q] by auto

lemma InflateFile_node:
  assumes "InflateFile file dest t = (e, t')"
  shows "node_at t' q = node_at t q
         \<or> (node_at t q = None \<and> node_at t' q = Some Directory)
         \<or> (q = os_path (Join [dest, zName file]) \<and> node_at t q \<noteq> Some Directory)"
proof (cases "suffix [slash] (zName file)")
  case True
  with assms have "EnsureDir t (Join [dest, zName file]) = (e, t')"
    by (simp add: InflateFile_def)
  from EnsureDir_only_directories [OF this, of q] show ?thesis by auto
next
  case False
  show ?thesis
  proof (cases "q = os_path (Join [dest, zName file])")
    case True
    with assms False show ?thesis
      by (auto simp: InflateFile_def Let_def os_Create_def open_trunc_def
          split: option.splits sum.splits if_splits node.splits file_mode.splits)
  next
    case other: False
    with assms False show ?thesis
      by (auto simp: InflateFile_def Let_def write_file_node
          split: option.splits sum.splits if_splits dest: os_Create_node)
  qed
qed

lemma SecureInflateFile_node:
  assumes "SecureInflateFile abort file dest sub t = (e, t')"
  shows "node_at t' q = node_at t q
         \<or> (node_at t q = None \<and> node_at t' q = Some Directory)
         \<or> (prefix (os_path dest) q \<and> node_at t q \<noteq> Some Directory)"
proof (cases "t' = t")
  case True
  then show ?thesis by simp
next
  case False
  let ?name = "stripSubfolder sub (zName file)"
  from assms False have safe: "\<not> escapes dest ?name"
    by (auto simp: SecureInflateFile_def Let_def split: if_splits)
  from assms False obtain e1 t1 where
    d: "EnsureDir t (Dir (Join [dest, ?name])) = (e1, t1)" and
    i: "t1 = t' \<or> InflateFile (file\<lparr>zName := ?name\<rparr>) dest t1 = (e, t')"
    by (auto simp: SecureInflateFile_def Let_def split: if_splits prod.splits option.splits)
  from i show ?thesis
  proof
    assume "t1 = t'"
    with EnsureDir_only_directories [OF d, of q] show ?thesis by auto
  next
    assume "InflateFile (file\<lparr>zName := ?name\<rparr>) dest t1 = (e, t')"
    from InflateFile_node [OF this, of q] EnsureDir_only_directories [OF d, of q] safe
    show ?thesis
      by (auto simp: escapes_def)
  qed
qed

lemma SecureInflateFile_rejects:
  assumes "\<not> abort"
    and "Contains (ReplaceBackslashes (zName file)) ''../''
         \<or> escapes dest (stripSubfolder sub (zName file))"
  shows "SecureInflateFile abort file dest sub t = (Some ErrInsecureZipFileName, t)"
  using assms by (auto simp: SecureInflateFile_def Let_def)

lemma os_Remove_only_removes:
  assumes "os_Remove t p = Inr t'"
  shows "node_at t' q = node_at t q \<or> node_at t' q = None"
  using assms
  by (auto simp: os_Remove_def Let_def node_at_fs_del split: option.splits node.splits if_splits)

lemma uninstall_only_removes:
  "node_at (snd (uninstall inst p t)) q = node_at t q
   \<or> node_at (snd (uninstall inst p t)) q = None"
proof (cases "os_RemoveAll t (Join [PackRoot inst, Vendor p, Name p, GetVersion p])")
  case (Inl e)
  then show ?thesis by (simp add: uninstall_def)
next
  case (Inr t1)
  let ?R = "\<lambda>u. node_at u q = node_at t q \<or> node_at u q = None"
  let ?packPath = "Join [PackRoot inst, Vendor p, Name p]"
  let ?vendorPath = "Join [PackRoot inst, Vendor p]"
  have step: "?R u'" if "os_Remove u a = Inr u'" "?R u" for u u' a
    using os_Remove_only_removes [OF that(1), of q] that(2) by auto
  have a: "?R t1"
    using os_RemoveAll_node [OF Inr, of q] by auto
  define r2 where "r2 =
    (if IsEmpty t1 ?packPath
     then (case os_Remove t1 ?packPath of
             Inl e \<Rightarrow> (Some (ErrOS e), t1)
           | Inr t2 \<Rightarrow>
               (if \<not> IsPublic p
                then (case os_Remove t2 (Join [LocalDir inst, PdscFileName p]) of
                        Inl e \<Rightarrow> (Some (ErrOS e), t2)
                      | Inr t3 \<Rightarrow> (None, t3))
                else (None, t2)))
     else (None, t1))"
  have b: "?R (snd r2)"
  proof (cases "os_Remove t1 ?packPath")
    case (Inl e)
    with a show ?thesis by (simp add: r2_def)
  next
    case t2: (Inr t2)
    from step [OF t2 a] have a2: "?R t2" .
    show ?thesis
    proof (cases "os_Remove t2 (Join [LocalDir inst, PdscFileName p])")
      case (Inl e)
      with a a2 t2 show ?thesis by (simp add: r2_def)
    next
      case t3: (Inr t3)
      from step [OF t3 a2] have "?R t3" .
      with a a2 t2 t3 show ?thesis by (simp add: r2_def)
    qed
  qed
  have u: "uninstall inst p t =
      (case r2 of
         (Some e, t') \<Rightarrow> (Some e, t')
       | (None, t') \<Rightarrow>
           (if IsEmpty t' ?vendorPath
            then (case os_Remove t' ?vendorPath of
                    Inl e \<Rightarrow> (Some (ErrOS e), t')
                  | Inr t'' \<Rightarrow> (None, t''))
            else (None, t')))"
    unfolding uninstall_def Let_def r2_def by (simp add: Inr)
  obtain e2 t2 where r2: "r2 = (e2, t2)"
    by (cases r2)
  with b have b2: "?R t2" by simp
  show ?thesis
  proof (cases "os_Remove t2 ?vendorPath")
    case (Inl e)
    with b2 r2 show ?thesis by (auto simp: u split: option.splits)
  next
    case t3: (Inr t3)
    from step [OF t3 b2] have "?R t3" .
    with b2 r2 t3 show ?thesis by (auto simp: u split: option.splits)
  qed
qed

lemma inflateAll_node:
  assumes "inflateAll env inst p home i files t = (e, t')"
  shows "node_at t' q = node_at t q \<or> \<not> is_file t' q
         \<or> (prefix (os_path home) q \<and> node_at t q \<noteq> Some Directory)"
  using assms
proof (induction files arbitrary: i t)
  case Nil
  then show ?case by simp
next
  case (Cons entry rest)
  obtain e1 t1 where s: "SecureInflateFile (ShouldAbort env i) entry home (Subfolder p) t = (e1, t1)"
    by (cases "SecureInflateFile (ShouldAbort env i) entry home (Subfolder p) t")
  note S = SecureInflateFile_node [OF s, of q]
  have P: "node_at t' q = node_at t1 q \<or> \<not> is_file t' q
           \<or> (prefix (os_path home) q \<and> node_at t1 q \<noteq> Some Directory)"
  proof (cases e1)
    case None
    with Cons.prems s have "inflateAll env inst p home (Suc i) rest t1 = (e, t')"
      by simp
    then show ?thesis by (rule Cons.IH)
  next
    case (Some err)
    with Cons.prems s have "t' = t1 \<or> t' = snd (uninstall inst p t1)"
      by (auto split: if_splits)
    then show ?thesis
      using uninstall_only_removes [of inst p t1 q] by (auto simp: is_file_def)
  qed
  from S P show ?case
    by (auto simp: is_file_def)
qed

lemma inflateAll_accepted:
  assumes "inflateAll env inst p home i files t = (None, t')"
    and "entry \<in> set files"
  shows "\<not> Contains (ReplaceBackslashes (zName entry)) ''../''
         \<and> \<not> escapes home (stripSubfolder (Subfolder p) (zName entry))"
  using assms
proof (induction files arbitrary: i t)
  case Nil
  then show ?case by simp
next
  case (Cons first rest)
  obtain e1 t1 where s: "SecureInflateFile (ShouldAbort env i) first home (Subfolder p) t = (e1, t1)"
    by (cases "SecureInflateFile (ShouldAbort env i) first home (Subfolder p) t")
  with Cons.prems(1) have e1: "e1 = None"
    and rest: "inflateAll env inst p home (Suc i) rest t1 = (None, t')"
    by (auto split: option.splits if_splits)
  show ?case
  proof (cases "entry = first")
    case True
    from s e1 show ?thesis unfolding True
      by (auto simp: SecureInflateFile_def Let_def split: if_splits)
  next
    case False
    with Cons.prems(2) have "entry \<in> set rest" by simp
    from Cons.IH [OF rest this] show ?thesis .
  qed
qed

text \<open>
  C1. The extractor rejects, with InsecureZipFileName and without touching the file
  system, every entry whose normalized name contains \<^verbatim>\<open>../\<close> or whose path would escape
  the destination. Whatever the extraction of an archive into the pack's home directory
  returns, a file that is new or changed afterwards lies in that directory (strictly
  below it when the directory existed), and an extraction that succeeds has met no such
  entry.
\<close>

theorem extraction_stays_in_pack_home:
  "(\<not> abort \<and> (Contains (ReplaceBackslashes (zName f)) ''../''
                 \<or> escapes home (stripSubfolder sub (zName f)))
      \<longrightarrow> SecureInflateFile abort f home sub t = (Some ErrInsecureZipFileName, t))
   \<and> (inflateAll env inst p home i files t = (e, t')
        \<and> is_file t' q \<and> node_at t' q \<noteq> node_at t q
      \<longrightarrow> prefix (os_path home) q \<and> (is_dir t (os_path home) \<longrightarrow> q \<noteq> os_path home))
   \<and> (inflateAll env inst p home i files t = (None, t') \<and> entry \<in> set files
      \<longrightarrow> \<not> Contains (ReplaceBackslashes (zName entry)) ''../''
          \<and> \<not> escapes home (stripSubfolder (Subfolder p) (zName entry)))"
  using SecureInflateFile_rejects [of abort f home sub t]
    inflateAll_node [of env inst p home i files t e t' q]
    inflateAll_accepted [of env inst p home i files t t' entry]
  by (auto simp: is_dir_def)

theorem extraction_stays_in_pack_home_witness:
  "SecureInflateFile False evil_entry example_home [] prepared_fs
     = (Some ErrInsecureZipFileName, prepared_fs)
   \<and> fst (extracted example_entries) = None
   \<and> is_file (snd (extracted example_entries))
         [''packs'', ''Vendor'', ''Pack'', ''1.0.0'', ''docs'', ''license.txt'']
   \<and> prefix (os_path example_home)
         [''packs'', ''Vendor'', ''Pack'', ''1.0.0'', ''docs'', ''license.txt'']
   \<and> \<not> Contains (ReplaceBackslashes ''docs/license.txt'') ''../''"
proof -
  let ?q = "[''packs'', ''Vendor'', ''Pack'', ''1.0.0'', ''docs'', ''license.txt'']"
  let ?entry = "\<lparr> zName = ''docs/license.txt'', zBody = Some ''{rtf}TERMS'', zReadError = False \<rparr>"
  have evil: "Contains (ReplaceBackslashes (zName evil_entry)) ''../''"
    by code_simp
  have ok: "fst (extracted example_entries) = None"
    by code_simp
  then have run:
    "inflateAll (example_env ''a'') example_installation example_pack example_home 1
       example_entries prepared_fs = (None, snd (extracted example_entries))"
    by (metis extracted_def prod.collapse)
  have new: "is_file (snd (extracted example_entries)) ?q" "node_at prepared_fs ?q = None"
    by code_simp+
  then have changed: "node_at (snd (extracted example_entries)) ?q \<noteq> node_at prepared_fs ?q"
    by (auto simp: is_file_def split: option.splits)
  have member: "?entry \<in> set example_entries"
    by (simp add: example_entries_def)
  show ?thesis
    using extraction_stays_in_pack_home
        [of False evil_entry example_home "[]" prepared_fs "example_env ''a''"
          example_installation example_pack 1 example_entries None
          "snd (extracted example_entries)" ?q ?entry]
      evil ok run new changed member
    by simp
qed

text \<open>
  \<^verbatim>\<open>InflateFile\<close> itself, which \<^verbatim>\<open>install\<close> does not call, has no such check: an entry
  named \<^verbatim>\<open>../../passwd\<close> is written outside the destination.
\<close>

lemma InflateFile_unguarded_example:
  "InflateFile \<lparr> zName = ''../../passwd'', zBody = Some ''root'', zReadError = False \<rparr>
       example_home prepared_fs
     = (None, fs_put prepared_fs [''packs'', ''Vendor'', ''passwd''] (File ''root'' ModeRW))"
  by code_simp

subsection \<open>The license gate\<close>

lemma comparable_prefixes: "prefix a c \<Longrightarrow> prefix b c \<Longrightarrow> comparable a b"
  unfolding comparable_def by (rule prefix_same_cases)

lemma InflateFile_frame:
  assumes "InflateFile file dest t = (e, t')"
  shows "node_at t' q = node_at t q \<or> prefix q (os_path (Join [dest, zName file]))"
proof (cases "suffix [slash] (zName file)")
  case True
  with assms have "EnsureDir t (Join [dest, zName file]) = (e, t')"
    by (simp add: InflateFile_def)
  from EnsureDir_node [OF this, of q] show ?thesis by auto
next
  case False
  with assms show ?thesis
    by (cases "q = os_path (Join [dest, zName file])")
      (auto simp: InflateFile_def Let_def write_file_node
        split: option.splits sum.splits if_splits dest: os_Create_node)
qed

lemma SecureInflateFile_frame:
  assumes "SecureInflateFile abort file dest sub t = (e, t')"
  shows "node_at t' q = node_at t q \<or> comparable q (os_path dest)"
proof (cases "t' = t")
  case True
  then show ?thesis by simp
next
  case False
  let ?name = "stripSubfolder sub (zName file)"
  let ?W = "os_path (Join [dest, ?name])"
  let ?D = "os_path (Dir (Join [dest, ?name]))"
  from assms False have safe: "prefix (os_path dest) ?W"
    by (auto simp: SecureInflateFile_def Let_def escapes_def split: if_splits)
  from assms False obtain e1 t1 where
    d: "EnsureDir t (Dir (Join [dest, ?name])) = (e1, t1)" and
    i: "t1 = t' \<or> InflateFile (file\<lparr>zName := ?name\<rparr>) dest t1 = (e, t')"
    by (auto simp: SecureInflateFile_def Let_def split: if_splits prod.splits option.splits)
  have "node_at t1 q = node_at t q \<or> prefix q ?D"
    using EnsureDir_node [OF d, of q] by auto
  moreover have "node_at t' q = node_at t1 q \<or> prefix q ?W"
    using i InflateFile_frame [of "file\<lparr>zName := ?name\<rparr>" dest t1 e t' q] by auto
  moreover have "comparable q (os_path dest)" if "prefix q ?W"
    using that safe by (rule comparable_prefixes)
  moreover have "comparable q (os_path dest)" if "prefix q ?D"
  proof -
    from os_path_Dir_cases [of "Join [dest, ?name]"]
    show ?thesis
    proof
      assume "prefix ?D ?W"
      with that have "prefix q ?W" by (rule prefix_order.trans)
      then show ?thesis using safe by (rule comparable_prefixes)
    next
      assume "prefix ?W ?D"
      with safe have "prefix (os_path dest) ?D" by (rule prefix_order.trans)
      with that show ?thesis by (rule comparable_prefixes)
    qed
  qed
  ultimately show ?thesis by auto
qed

lemma validate_frame:
  assumes "validate env p t = (e, p', t')"
    and "\<not> comparable q (os_path (RandStringBytes env))"
  shows "node_at t' q = node_at t q"
proof -
  from validate_effect [OF assms(1)]
  consider "t' = t"
    | entry e1 t1 where
      "SecureInflateFile (ShouldAbort env 0) entry (RandStringBytes env) [] t = (e1, t1)"
      "t' = removeTmp t1 (RandStringBytes env)"
    by blast
  then show ?thesis
  proof cases
    case 1
    then show ?thesis by simp
  next
    case 2
    from SecureInflateFile_frame [OF 2(1), of q] assms(2)
    have "node_at t1 q = node_at t q" by simp
    moreover have "node_at t' q = node_at t1 q"
      using removeTmp_node [of t1 "RandStringBytes env" q] assms(2) 2(2)
      by (auto simp: comparable_def)
    ultimately show ?thesis by simp
  qed
qed

lemma below_incomparable:
  assumes "\<not> comparable h r" and "prefix h q"
  shows "\<not> comparable q r"
proof
  assume "comparable q r"
  then show False
    unfolding comparable_def
  proof
    assume "prefix q r"
    with assms(2) have "prefix h r" by (rule prefix_order.trans)
    with assms(1) show False by (simp add: comparable_def)
  next
    assume "prefix r q"
    with assms(2) have "comparable h r" by (rule comparable_prefixes)
    with assms(1) show False by simp
  qed
qed

text \<open>
  C10. When the archive opens, the pack validates, its PDSC names a license, the
  license is to be checked and the answer is a refusal, \<^verbatim>\<open>install\<close> returns the Eula
  error with the file system as validation left it: the pack's home directory is not
  created and nothing is extracted there (the temporary directory of the validation
  lying elsewhere).
\<close>

theorem declined_license_installs_nothing:
  assumes "zip_OpenReader env t (path p) = Some files"
    and "validate env (p\<lparr>zipReader := files\<rparr>) t = (None, p1, t1)"
    and "theLicense p1 \<noteq> []"
    and "checkEula env ui p1 = ((False, None), ui')"
    and "\<not> comparable (os_path (packHomeDir inst p)) (os_path (RandStringBytes env))"
  shows "install env inst True ui p t = (Some ErrEula, p1, t1, ui')
         \<and> (\<forall>q. prefix (os_path (packHomeDir inst p)) q \<longrightarrow> node_at t1 q = node_at t q)"
proof -
  have "install env inst True ui p t = (Some ErrEula, p1, t1, ui')"
    using assms(1-4) by (simp add: install_def licenseGate_def Let_def)
  moreover have "node_at t1 q = node_at t q" if "prefix (os_path (packHomeDir inst p)) q" for q
    using validate_frame [OF assms(2)] below_incomparable [OF assms(5) that] by simp
  ultimately show ?thesis by simp
qed

theorem declined_license_installs_nothing_witness:
  "local_installed ''d'' = (Some ErrEula, fst (snd (validated ''d'')), example_fs, fresh_ui)
   \<and> node_at example_fs [''packs'', ''Vendor'', ''Pack'', ''1.0.0''] = None"
proof -
  let ?env = "example_env ''d''"
  let ?p1 = "fst (snd (validated ''d''))"
  have opened: "zip_OpenReader ?env example_fs (path example_pack) = Some example_entries"
    by code_simp
  have "fst (validated ''d'') = None" "snd (snd (validated ''d'')) = example_fs"
    by code_simp+
  then have "validated ''d'' = (None, ?p1, example_fs)"
    by (metis prod.collapse)
  then have valid:
    "validate ?env (example_pack\<lparr>zipReader := example_entries\<rparr>) example_fs
       = (None, ?p1, example_fs)"
    by (simp add: validated_def)
  have license: "theLicense ?p1 \<noteq> []"
    by code_simp
  have declined: "checkEula ?env fresh_ui ?p1 = ((False, None), fresh_ui)"
    by code_simp
  have apart:
    "\<not> comparable (os_path (packHomeDir example_installation example_pack))
         (os_path (RandStringBytes ?env))"
    by code_simp
  have absent: "node_at example_fs [''packs'', ''Vendor'', ''Pack'', ''1.0.0''] = None"
    by code_simp
  show ?thesis
    using declined_license_installs_nothing [OF opened valid license declined apart]
      absent
    by (simp add: local_installed_def)
qed












subsection \<open>The descriptors\<close>

























lemma stripSubfolder_Nil [simp]: "stripSubfolder [] name = name"
  by (simp add: stripSubfolder_def)







end
